theory Spec2Isabelle
  imports Complex_Main
begin

section \<open>Values of the sandboxed JavaScript runtime\<close>

text \<open>
  The template (\<^verbatim>\<open>src/template.js\<close>) is one script run by the tag manager's sandboxed
  JavaScript. It reads two objects, the tag configuration \<^verbatim>\<open>data\<close> and the event record
  \<^verbatim>\<open>eventData\<close>, builds the flat object \<^verbatim>\<open>requestBody\<close> and posts it.

  A number of the runtime is never computed with by the template: it is only tested for
  truthiness, converted to a string, or passed on. A finite number is kept as a rational
  (every double is one); negative zero is not told apart from zero, which no operation of
  the template can do either. A string is the list of its characters, in the 8-bit
  characters of HOL (the bytes of its UTF-8 form); the value of a function does not occur
  in the configuration or the event.
\<close>

datatype jsnum = NaN | PosInf | NegInf | Fin rat

text \<open>
  An object is the list of its own properties in the order in which the runtime enumerates
  them: the keys that are array indices first, in ascending numeric order, then the other
  keys in the order they were first written. Writing a property (\<open>obj_set\<close>) keeps that
  order, and the enumerations (\<open>obj_keys\<close>, the JSON text) put a list that is given in
  another order into it first. A key occurs once in an object of the runtime; reading
  (\<open>obj_get\<close>) and writing use the first entry for a key, so the operations are defined on
  every list.
\<close>

datatype jsval =
    Undefined
  | Null
  | Bool bool
  | Num jsnum
  | Str string
  | Arr "jsval list"
  | Obj "(string \<times> jsval) list"

type_synonym jsobj = "(string \<times> jsval) list"

datatype error = TypeError

text \<open>Sequencing of a computation that may throw.\<close>

definition thenE :: "error + 'a \<Rightarrow> ('a \<Rightarrow> error + 'b) \<Rightarrow> error + 'b" where
  "thenE m f = (case m of Inl e \<Rightarrow> Inl e | Inr v \<Rightarrow> f v)"

text \<open>\<^verbatim>\<open>xs.forEach(f)\<close> and \<^verbatim>\<open>xs.reduce(f, acc)\<close> over an array, \<open>f\<close> updating the
  state \<open>acc\<close>; the first throw ends the loop.\<close>

fun foldE :: "('a \<Rightarrow> 'b \<Rightarrow> error + 'b) \<Rightarrow> 'a list \<Rightarrow> 'b \<Rightarrow> error + 'b" where
  "foldE f [] acc = Inr acc"
| "foldE f (x # xs) acc = thenE (f x acc) (foldE f xs)"

subsection \<open>Truthiness, \<^verbatim>\<open>||\<close>, nullishness\<close>

fun truthy :: "jsval \<Rightarrow> bool" where
  "truthy Undefined = False"
| "truthy Null = False"
| "truthy (Bool b) = b"
| "truthy (Num NaN) = False"
| "truthy (Num (Fin q)) = (q \<noteq> 0)"
| "truthy (Num PosInf) = True"
| "truthy (Num NegInf) = True"
| "truthy (Str s) = (s \<noteq> [])"
| "truthy (Arr xs) = True"
| "truthy (Obj kvs) = True"

text \<open>\<^verbatim>\<open>a || b\<close> for operands that cannot throw.\<close>

definition js_or :: "jsval \<Rightarrow> jsval \<Rightarrow> jsval" where
  "js_or a b = (if truthy a then a else b)"

text \<open>\<^verbatim>\<open>v != null\<close> is false exactly for \<^verbatim>\<open>null\<close> and \<^verbatim>\<open>undefined\<close>.\<close>

definition nullish :: "jsval \<Rightarrow> bool" where
  "nullish v = (v = Undefined \<or> v = Null)"

subsection \<open>Objects\<close>

definition obj_get :: "jsobj \<Rightarrow> string \<Rightarrow> jsval" where
  "obj_get kvs k = (case map_of kvs k of None \<Rightarrow> Undefined | Some v \<Rightarrow> v)"

text \<open>
  An array index is the decimal numeral, without a leading zero, of a number below
  \<open>2\<^sup>3\<^sup>2 - 1\<close>.
\<close>

definition is_digit :: "char \<Rightarrow> bool" where
  "is_digit c = (c \<in> set ''0123456789'')"

fun all_digits :: "string \<Rightarrow> bool" where
  "all_digits [] = True"
| "all_digits (c # cs) = (if is_digit c then all_digits cs else False)"

definition digits_value :: "string \<Rightarrow> int" where
  "digits_value s = fold (\<lambda>c n. 10 * n + (of_char c - 48)) s 0"

definition is_index :: "string \<Rightarrow> bool" where
  "is_index k =
     (case k of
        [] \<Rightarrow> False
      | c # cs \<Rightarrow>
          if \<not> all_digits (c # cs) then False
          else if c = CHR ''0'' \<and> cs \<noteq> [] then False
          else digits_value (c # cs) < 4294967295)"

text \<open>\<^verbatim>\<open>o[k] = v\<close> for a key the object has: the value is replaced where it is.\<close>

primrec obj_update :: "string \<Rightarrow> jsval \<Rightarrow> jsobj \<Rightarrow> jsobj" where
  "obj_update k v [] = [(k, v)]"
| "obj_update k v (p # ps) = (if fst p = k then (k, v) # ps else p # obj_update k v ps)"

text \<open>A new array index goes before the first key that is not a smaller array index.\<close>

fun insert_index :: "string \<Rightarrow> jsval \<Rightarrow> jsobj \<Rightarrow> jsobj" where
  "insert_index k v [] = [(k, v)]"
| "insert_index k v (p # ps) =
     (if is_index (fst p) \<and> digits_value (fst p) < digits_value k then p # insert_index k v ps
      else (k, v) # p # ps)"

text \<open>\<^verbatim>\<open>o[k] = v\<close>: a new key that is not an array index goes last.\<close>

definition obj_set :: "string \<Rightarrow> jsval \<Rightarrow> jsobj \<Rightarrow> jsobj" where
  "obj_set k v kvs =
     (if is_index k then
        if k \<in> fst ` set kvs then obj_update k v kvs else insert_index k v kvs
      else obj_update k v kvs)"

text \<open>\<^verbatim>\<open>Object.keys(o)\<close>: the array indices in ascending order, then the other keys.\<close>

definition obj_keys :: "jsobj \<Rightarrow> string list" where
  "obj_keys kvs =
     (let ks = remdups (map fst kvs)
      in sort_key digits_value (filter is_index ks) @ filter (\<lambda>k. \<not> is_index k) ks)"

text \<open>
  \<^verbatim>\<open>v.name\<close> for a value \<open>v\<close> of any type and one of the fixed, non-index names the
  template reads (\<^verbatim>\<open>index\<close>, \<^verbatim>\<open>value\<close>, \<^verbatim>\<open>id\<close>, \<^verbatim>\<open>name\<close>, \<^verbatim>\<open>key\<close>,
  \<^verbatim>\<open>length\<close>, \<^verbatim>\<open>debugMode\<close>, \<^verbatim>\<open>previewMode\<close>): reading a property of
  \<^verbatim>\<open>null\<close> or \<^verbatim>\<open>undefined\<close> throws, arrays and strings have a length, every other
  read of a value that is not an object is \<^verbatim>\<open>undefined\<close>.
\<close>

fun get_prop :: "jsval \<Rightarrow> string \<Rightarrow> error + jsval" where
  "get_prop Undefined k = Inl TypeError"
| "get_prop Null k = Inl TypeError"
| "get_prop (Obj kvs) k = Inr (obj_get kvs k)"
| "get_prop (Arr xs) k = Inr (if k = ''length'' then Num (Fin (of_nat (length xs))) else Undefined)"
| "get_prop (Str s) k = Inr (if k = ''length'' then Num (Fin (of_nat (length s))) else Undefined)"
| "get_prop (Bool b) k = Inr Undefined"
| "get_prop (Num n) k = Inr Undefined"

section \<open>The host's APIs\<close>

text \<open>
  The template obtains its primitives from the host with \<^verbatim>\<open>require\<close>. Three of them are
  kept as parameters, with nothing assumed of them: the SHA-256 digest in hexadecimal
  (\<^verbatim>\<open>sha256Sync(s, {outputEncoding: 'hex'})\<close>), the decimal text of a finite number that
  is not a small integer, and the number a string denotes.
\<close>

record host =
  sha256Sync :: "string \<Rightarrow> string"
  numberToString :: "rat \<Rightarrow> string"
  stringToNumber :: "string \<Rightarrow> jsnum"

subsection \<open>\<^verbatim>\<open>getType\<close>\<close>

fun getType :: "jsval \<Rightarrow> string" where
  "getType Undefined = ''undefined''"
| "getType Null = ''null''"
| "getType (Bool b) = ''boolean''"
| "getType (Num n) = ''number''"
| "getType (Str s) = ''string''"
| "getType (Arr xs) = ''array''"
| "getType (Obj kvs) = ''object''"

subsection \<open>Conversion to a string: \<^verbatim>\<open>makeString\<close>, \<^verbatim>\<open>'dimension' + x\<close>, property keys\<close>

definition digit_char :: "int \<Rightarrow> char" where
  "digit_char d = ''0123456789'' ! nat (d mod 10)"

function dec_digits :: "int \<Rightarrow> string" where
  "dec_digits n = (if n < 10 then [digit_char n] else dec_digits (n div 10) @ [digit_char n])"
  by pat_completeness auto
termination
  by (relation "measure nat") auto

declare dec_digits.simps [simp del]

definition int_to_string :: "int \<Rightarrow> string" where
  "int_to_string i = (if i < 0 then CHR ''-'' # dec_digits (- i) else dec_digits i)"

definition is_integer :: "rat \<Rightarrow> bool" where
  "is_integer q = (of_int \<lfloor>q\<rfloor> = q)"

text \<open>
  An integer of magnitude up to \<open>2\<^sup>5\<^sup>3\<close> is a number of the runtime and is printed as
  its decimal digits. The text of every other finite number (the shortest digits that read
  back as the same double, with an exponent from \<open>10\<^sup>2\<^sup>1\<close> on) is the host's.
\<close>

fun num_to_string :: "host \<Rightarrow> jsnum \<Rightarrow> string" where
  "num_to_string h NaN = ''NaN''"
| "num_to_string h PosInf = ''Infinity''"
| "num_to_string h NegInf = ''-Infinity''"
| "num_to_string h (Fin q) =
     (if is_integer q \<and> \<bar>q\<bar> \<le> 2 ^ 53 then int_to_string \<lfloor>q\<rfloor> else numberToString h q)"

fun join :: "string \<Rightarrow> string list \<Rightarrow> string" where
  "join sep [] = []"
| "join sep [s] = s"
| "join sep (s # t # ts) = s @ sep @ join sep (t # ts)"

fun to_string :: "host \<Rightarrow> jsval \<Rightarrow> string" where
  "to_string h Undefined = ''undefined''"
| "to_string h Null = ''null''"
| "to_string h (Bool b) = (if b then ''true'' else ''false'')"
| "to_string h (Num n) = num_to_string h n"
| "to_string h (Str s) = s"
| "to_string h (Arr xs) =
     join '','' (map (\<lambda>x. if x = Undefined \<or> x = Null then [] else to_string h x) xs)"
| "to_string h (Obj kvs) = ''[object Object]''"

definition makeString :: "host \<Rightarrow> jsval \<Rightarrow> jsval" where
  "makeString h v = Str (to_string h v)"

subsection \<open>\<^verbatim>\<open>makeNumber\<close>\<close>

fun makeNumber :: "host \<Rightarrow> jsval \<Rightarrow> jsval" where
  "makeNumber h Undefined = Num NaN"
| "makeNumber h Null = Num (Fin 0)"
| "makeNumber h (Bool b) = Num (Fin (if b then 1 else 0))"
| "makeNumber h (Num n) = Num n"
| "makeNumber h (Str s) = Num (stringToNumber h s)"
| "makeNumber h (Arr xs) = Num (stringToNumber h (to_string h (Arr xs)))"
| "makeNumber h (Obj kvs) = Num NaN"

subsection \<open>\<^verbatim>\<open>JSON.stringify\<close>\<close>

definition dquote :: char where
  "dquote = CHR 0x22"

definition backslash :: char where
  "backslash = CHR 0x5C"

definition hex_digit :: "nat \<Rightarrow> char" where
  "hex_digit d = ''0123456789abcdef'' ! (d mod 16)"

definition json_escape :: "char \<Rightarrow> string" where
  "json_escape c =
     (if c = dquote then [backslash, dquote]
      else if c = backslash then [backslash, backslash]
      else if c = CHR 0x08 then [backslash, CHR ''b'']
      else if c = CHR 0x0C then [backslash, CHR ''f'']
      else if c = CHR 0x0A then [backslash, CHR ''n'']
      else if c = CHR 0x0D then [backslash, CHR ''r'']
      else if c = CHR 0x09 then [backslash, CHR ''t'']
      else if (of_char c :: nat) < 32
        then [backslash, CHR ''u'', CHR ''0'', CHR ''0'',
              hex_digit (of_char c div 16), hex_digit (of_char c)]
      else [c])"

definition json_quote :: "string \<Rightarrow> string" where
  "json_quote s = dquote # concat (map json_escape s) @ [dquote]"

text \<open>
  The text of a value other than \<^verbatim>\<open>undefined\<close>: a number that is not finite is
  \<^verbatim>\<open>null\<close>, an \<^verbatim>\<open>undefined\<close> element of an array is \<^verbatim>\<open>null\<close>, a property whose
  value is \<^verbatim>\<open>undefined\<close> is left out.
\<close>

fun json_text :: "host \<Rightarrow> jsval \<Rightarrow> string" where
  "json_text h Undefined = ''null''"
| "json_text h Null = ''null''"
| "json_text h (Bool b) = (if b then ''true'' else ''false'')"
| "json_text h (Num (Fin q)) = num_to_string h (Fin q)"
| "json_text h (Num n) = ''null''"
| "json_text h (Str s) = json_quote s"
| "json_text h (Arr xs) = ''['' @ join '','' (map (json_text h) xs) @ '']''"
| "json_text h (Obj kvs) =
     ''{'' @ join '',''
        (map (\<lambda>p. json_quote (fst p) @ '':'' @ json_text h (snd p))
           (filter (\<lambda>p. snd p \<noteq> Undefined) kvs)) @ ''}''"

text \<open>A value with the properties of every object in it in the runtime's order.\<close>

fun enumerated :: "jsval \<Rightarrow> jsval" where
  "enumerated (Arr xs) = Arr (map enumerated xs)"
| "enumerated (Obj kvs) =
     (let kvs' = map (\<lambda>p. (fst p, enumerated (snd p))) kvs
      in Obj (map (\<lambda>k. (k, obj_get kvs' k)) (obj_keys kvs')))"
| "enumerated v = v"

definition JSON_stringify :: "host \<Rightarrow> jsval \<Rightarrow> jsval" where
  "JSON_stringify h v = (if v = Undefined then Undefined else Str (json_text h (enumerated v)))"

subsection \<open>\<^verbatim>\<open>testRegex(createRegex('^[0-9a-fA-F]{16}$'), v)\<close>\<close>

definition is_hex_char :: "char \<Rightarrow> bool" where
  "is_hex_char c =
     (let n = (of_char c :: nat)
      in (48 \<le> n \<and> n \<le> 57) \<or> (97 \<le> n \<and> n \<le> 102) \<or> (65 \<le> n \<and> n \<le> 70))"

definition is_hex16 :: "string \<Rightarrow> bool" where
  "is_hex16 s = (length s = 16 \<and> list_all is_hex_char s)"

text \<open>A value that is not a string matches no pattern.\<close>

fun testRegex_hex16 :: "jsval \<Rightarrow> bool" where
  "testRegex_hex16 (Str s) = is_hex16 s"
| "testRegex_hex16 v = False"

section \<open>The template's functions\<close>

subsection \<open>\<^verbatim>\<open>getClientIdHash\<close>\<close>

text \<open>
  \<^verbatim>\<open>sha256Sync\<close> takes a string; the host rejects any other argument by throwing.
  \<^verbatim>\<open>substring(0,16)\<close> is \<open>take 16\<close>.
\<close>

definition getClientIdHash :: "host \<Rightarrow> jsobj \<Rightarrow> error + jsval" where
  "getClientIdHash h eventData =
     (let clientId = obj_get eventData ''client_id''
      in if \<not> truthy clientId then Inr Undefined
         else if testRegex_hex16 clientId then Inr clientId
         else (case clientId of
                 Str s \<Rightarrow> Inr (Str (take 16 (sha256Sync h s)))
               | _ \<Rightarrow> Inl TypeError))"

subsection \<open>\<^verbatim>\<open>stringToArrayAndTrim\<close>\<close>

fun split_on :: "char \<Rightarrow> string \<Rightarrow> string list" where
  "split_on c [] = [[]]"
| "split_on c (x # xs) =
     (if x = c then [] # split_on c xs
      else (case split_on c xs of [] \<Rightarrow> [[x]] | w # ws \<Rightarrow> (x # w) # ws))"

text \<open>
  The white space \<^verbatim>\<open>trim\<close> removes, as the bytes of the UTF-8 form: the tab, the
  line feed, the vertical tab, the form feed, the carriage return and the space, then
  U+00A0, U+1680, U+2000 to U+200A, U+2028, U+2029, U+202F, U+205F, U+3000 and U+FEFF.
\<close>

definition white_space :: "string list" where
  "white_space =
     [[CHR 0x09], [CHR 0x0A], [CHR 0x0B], [CHR 0x0C], [CHR 0x0D], [CHR 0x20],
      [CHR 0xC2, CHR 0xA0],
      [CHR 0xE1, CHR 0x9A, CHR 0x80],
      [CHR 0xE2, CHR 0x80, CHR 0x80], [CHR 0xE2, CHR 0x80, CHR 0x81],
      [CHR 0xE2, CHR 0x80, CHR 0x82], [CHR 0xE2, CHR 0x80, CHR 0x83],
      [CHR 0xE2, CHR 0x80, CHR 0x84], [CHR 0xE2, CHR 0x80, CHR 0x85],
      [CHR 0xE2, CHR 0x80, CHR 0x86], [CHR 0xE2, CHR 0x80, CHR 0x87],
      [CHR 0xE2, CHR 0x80, CHR 0x88], [CHR 0xE2, CHR 0x80, CHR 0x89],
      [CHR 0xE2, CHR 0x80, CHR 0x8A],
      [CHR 0xE2, CHR 0x80, CHR 0xA8], [CHR 0xE2, CHR 0x80, CHR 0xA9],
      [CHR 0xE2, CHR 0x80, CHR 0xAF],
      [CHR 0xE2, CHR 0x81, CHR 0x9F],
      [CHR 0xE3, CHR 0x80, CHR 0x80],
      [CHR 0xEF, CHR 0xBB, CHR 0xBF]]"

text \<open>The length of the first sequence of \<open>ws\<close> that the string starts with, 0 for none.\<close>

definition leading :: "string list \<Rightarrow> string \<Rightarrow> nat" where
  "leading ws s =
     (case find (\<lambda>w. w \<noteq> [] \<and> take (length w) s = w) ws of
        None \<Rightarrow> 0
      | Some w \<Rightarrow> length w)"

function strip :: "string list \<Rightarrow> string \<Rightarrow> string" where
  "strip ws s = (if leading ws s = 0 then s else strip ws (drop (leading ws s) s))"
  by pat_completeness auto
termination
proof (relation "measure (\<lambda>(ws, s). length s)")
  show "wf (measure (\<lambda>(ws, s). length s))" by simp
next
  fix ws :: "string list" and s :: string
  assume "leading ws s \<noteq> 0"
  then obtain w where "find (\<lambda>w. w \<noteq> [] \<and> take (length w) s = w) ws = Some w"
    by (auto simp: leading_def split: option.splits)
  then have "w \<noteq> []" and "take (length w) s = w"
    by (auto simp: find_Some_iff)
  then have "s \<noteq> []" by auto
  then show "((ws, drop (leading ws s) s), (ws, s)) \<in> measure (\<lambda>(ws, s). length s)"
    using \<open>leading ws s \<noteq> 0\<close> by simp
qed

declare strip.simps [simp del]

definition trim :: "string \<Rightarrow> string" where
  "trim s = rev (strip (map rev white_space) (rev (strip white_space s)))"

text \<open>Only a string has the method \<^verbatim>\<open>split\<close>; calling it on another value throws.\<close>

fun stringToArrayAndTrim :: "jsval \<Rightarrow> error + jsval" where
  "stringToArrayAndTrim (Str s) = Inr (Arr (map (\<lambda>item. Str (trim item)) (split_on CHR '','' s)))"
| "stringToArrayAndTrim v = Inl TypeError"

subsection \<open>\<^verbatim>\<open>cleanObject\<close>\<close>

definition cleanObject :: "jsobj \<Rightarrow> jsobj" where
  "cleanObject obj =
     fold (\<lambda>k target. if \<not> nullish (obj_get obj k) then obj_set k (obj_get obj k) target else target)
       (obj_keys obj) []"

subsection \<open>\<^verbatim>\<open>convertEcommerce\<close>\<close>

text \<open>The last component of a product: the item's \<^verbatim>\<open>dimension*\<close> properties, the
  prefix of nine characters cut off.\<close>

definition item_dimensions :: "jsobj \<Rightarrow> jsval" where
  "item_dimensions item =
     Obj (fold (\<lambda>cur acc. if take 9 cur = ''dimension''
                           then obj_set (drop 9 cur) (obj_get item cur) acc else acc)
            (obj_keys item) [])"

definition convertItem :: "host \<Rightarrow> jsobj \<Rightarrow> jsval" where
  "convertItem h item =
     Arr [makeString h (obj_get item ''item_id''),
          obj_get item ''item_name'',
          Arr (filter truthy
                 [obj_get item ''item_category'', obj_get item ''item_category2'',
                  obj_get item ''item_category3'', obj_get item ''item_category4'',
                  obj_get item ''item_category5'']),
          obj_get item ''price'',
          obj_get item ''quantity'',
          obj_get item ''item_brand'',
          obj_get item ''item_variant'',
          item_dimensions item]"

text \<open>After the filter every entry is an object, so \<open>convertEntry\<close> is only applied to
  objects.\<close>

fun convertEntry :: "host \<Rightarrow> jsval \<Rightarrow> jsval" where
  "convertEntry h (Obj item) = convertItem h item"
| "convertEntry h v = Undefined"

definition convertEcommerce :: "host \<Rightarrow> jsval \<Rightarrow> jsval" where
  "convertEcommerce h itemArr =
     (if getType itemArr \<noteq> ''array'' then Undefined
      else (case itemArr of
              Arr items \<Rightarrow>
                Arr (map (convertEntry h) (filter (\<lambda>item. getType item = ''object'') items))
            | _ \<Rightarrow> Undefined))"

subsection \<open>Template constants\<close>

text \<open>The constants of \<^verbatim>\<open>src/template.js\<close>. The copy of the script inside
  \<^verbatim>\<open>src/template.tpl\<close> is the same text but for the version, \<^verbatim>\<open>1.0.2\<close> there.\<close>

definition LIBRARY_NAME :: string where
  "LIBRARY_NAME = ''sgtm''"

definition LIBRARY_VERSION :: string where
  "LIBRARY_VERSION = ''1.0.3''"

subsection \<open>\<^verbatim>\<open>uiParamMap\<close>: the object literal\<close>

text \<open>
  Two properties of the literal can throw, \<^verbatim>\<open>search_cats\<close> (a truthy configuration
  value that is not a string has no \<^verbatim>\<open>split\<close>) and \<^verbatim>\<open>_id\<close> (the hash of a client
  identifier that is not a string); the others cannot, so the two are computed first.
  In \<^verbatim>\<open>data._id || getClientIdHash()\<close> the call is made only when \<^verbatim>\<open>data._id\<close> is falsy.
\<close>

definition search_cats_value :: "host \<Rightarrow> jsobj \<Rightarrow> jsobj \<Rightarrow> error + jsval" where
  "search_cats_value h data eventData =
     thenE (if truthy (obj_get data ''search_cats'')
            then stringToArrayAndTrim (obj_get data ''search_cats'')
            else Inr (obj_get eventData ''x-pp-search_cats''))
       (\<lambda>v. Inr (JSON_stringify h v))"

definition visitor_id_value :: "host \<Rightarrow> jsobj \<Rightarrow> jsobj \<Rightarrow> error + jsval" where
  "visitor_id_value h data eventData =
     (if truthy (obj_get data ''_id'') then Inr (obj_get data ''_id'')
      else getClientIdHash h eventData)"

definition ec_products_value :: "host \<Rightarrow> jsobj \<Rightarrow> jsobj \<Rightarrow> jsval" where
  "ec_products_value h data eventData =
     js_or (js_or (JSON_stringify h (convertEcommerce h (obj_get data ''ec_products'')))
                  (JSON_stringify h (obj_get eventData ''x-pp-ec_products'')))
           (JSON_stringify h (convertEcommerce h (obj_get eventData ''items'')))"

definition uiParamMap_literal :: "host \<Rightarrow> jsobj \<Rightarrow> jsobj \<Rightarrow> error + jsobj" where
  "uiParamMap_literal h data eventData =
     thenE (search_cats_value h data eventData) (\<lambda>search_cats.
     thenE (visitor_id_value h data eventData) (\<lambda>visitor_id.
     Inr
      [(''idsite'', obj_get data ''websiteId''),
       (''rec'', Num (Fin 1)),
       (''uia'', if obj_get data ''anonymous'' = Str ''uia'' then Num (Fin 1)
                 else js_or (obj_get eventData ''x-pp-uia'') (Num (Fin 0))),
       (''rmip'', if obj_get data ''anonymous'' = Str ''rmip'' then Num (Fin 1)
                  else js_or (obj_get eventData ''x-pp-rmip'') (Num (Fin 0))),
       (''action_name'',
          js_or (js_or (obj_get data ''action_name'') (obj_get eventData ''x-pp-action_name''))
            (if obj_get data ''eventType'' = Str ''pageview''
                \<or> obj_get eventData ''event_name'' = Str ''page_view''
             then obj_get eventData ''page_title'' else Undefined)),
       (''url'', js_or (obj_get data ''url'') (obj_get eventData ''page_location'')),
       (''urlref'', js_or (obj_get data ''urlref'') (obj_get eventData ''page_referrer'')),
       (''search'', js_or (obj_get data ''search'') (obj_get eventData ''x-pp-search'')),
       (''search_cats'', search_cats),
       (''search_count'',
          if truthy (obj_get data ''search_count'') then makeNumber h (obj_get data ''search_count'')
          else obj_get eventData ''x-pp-search_count''),
       (''link'', js_or (obj_get data ''link'') (obj_get eventData ''x-pp-link'')),
       (''download'', js_or (obj_get data ''download'') (obj_get eventData ''x-pp-download'')),
       (''e_c'', js_or (obj_get data ''e_c'') (obj_get eventData ''x-pp-e_c'')),
       (''e_a'', js_or (obj_get data ''e_a'') (obj_get eventData ''x-pp-e_a'')),
       (''e_n'', js_or (obj_get data ''e_n'') (obj_get eventData ''x-pp-e_n'')),
       (''e_v'', js_or (obj_get data ''e_v'') (obj_get eventData ''x-pp-e_v'')),
       (''_id'', visitor_id),
       (''uid'', js_or (obj_get data ''uid'') (obj_get eventData ''user_id'')),
       (''cip'', js_or (obj_get data ''cip'') (obj_get eventData ''ip_override'')),
       (''e_t'', js_or (obj_get data ''e_t'') (obj_get eventData ''x-pp-e_t'')),
       (''ec_id'', js_or (js_or (obj_get data ''ec_id'') (obj_get eventData ''x-pp-ec_id''))
                     (obj_get eventData ''transaction_id'')),
       (''revenue'', js_or (obj_get data ''revenue'') (obj_get eventData ''value'')),
       (''ec_st'', js_or (obj_get data ''ec_st'') (obj_get eventData ''x-pp-ec_st'')),
       (''ec_sh'', js_or (obj_get data ''ec_sh'') (obj_get eventData ''x-pp-ec_sh'')),
       (''ec_tx'', js_or (obj_get data ''ec_tx'') (obj_get eventData ''x-pp-ec_tx'')),
       (''ec_dt'', js_or (obj_get data ''ec_dt'') (obj_get eventData ''x-pp-ec_dt'')),
       (''ec_products'', ec_products_value h data eventData)]))"

subsection \<open>\<^verbatim>\<open>uiParamMap\<close>: the passes after the literal\<close>

text \<open>The receiver of \<^verbatim>\<open>forEach\<close> and \<^verbatim>\<open>reduce\<close>: only an array has these methods.\<close>

fun as_array :: "jsval \<Rightarrow> error + jsval list" where
  "as_array (Arr xs) = Inr xs"
| "as_array v = Inl TypeError"

text \<open>\<^verbatim>\<open>uiParamMap['dimension' + dim.index] = dim.value\<close>\<close>

definition set_dimension :: "host \<Rightarrow> jsval \<Rightarrow> jsobj \<Rightarrow> error + jsobj" where
  "set_dimension h dimRow m =
     thenE (get_prop dimRow ''index'') (\<lambda>index.
     thenE (get_prop dimRow ''value'') (\<lambda>val.
     Inr (obj_set (''dimension'' @ to_string h index) val m)))"

text \<open>\<^verbatim>\<open>acc[cur.id] = [cur.name, cur.value]\<close>\<close>

definition cvar_entry :: "host \<Rightarrow> jsval \<Rightarrow> jsobj \<Rightarrow> error + jsobj" where
  "cvar_entry h cur acc =
     thenE (get_prop cur ''id'') (\<lambda>ident.
     thenE (get_prop cur ''name'') (\<lambda>name.
     thenE (get_prop cur ''value'') (\<lambda>val.
     Inr (obj_set (to_string h ident) (Arr [name, val]) acc))))"

text \<open>
  \<^verbatim>\<open>cvars && cvars.length ? cvars.reduce(..., {}) : inherited\<close>, the argument of
  \<^verbatim>\<open>JSON.stringify\<close> for \<^verbatim>\<open>cvar\<close> and \<^verbatim>\<open>_cvar\<close>.
\<close>

definition cvars_value :: "host \<Rightarrow> jsval \<Rightarrow> jsval \<Rightarrow> error + jsval" where
  "cvars_value h cvars inherited =
     (if \<not> truthy cvars then Inr inherited
      else thenE (get_prop cvars ''length'') (\<lambda>len.
        if \<not> truthy len then Inr inherited
        else thenE (as_array cvars) (\<lambda>xs.
             thenE (foldE (cvar_entry h) xs []) (\<lambda>acc. Inr (Obj acc)))))"

text \<open>\<^verbatim>\<open>uiParamMap[param.key] = param.value\<close>\<close>

definition set_param :: "host \<Rightarrow> jsval \<Rightarrow> jsobj \<Rightarrow> error + jsobj" where
  "set_param h param m =
     thenE (get_prop param ''key'') (\<lambda>key.
     thenE (get_prop param ''value'') (\<lambda>val.
     Inr (obj_set (to_string h key) val m)))"

definition uiParamMap :: "host \<Rightarrow> jsobj \<Rightarrow> jsobj \<Rightarrow> error + jsobj" where
  "uiParamMap h data eventData =
     thenE (uiParamMap_literal h data eventData) (\<lambda>m0.
     let m1 = obj_set ''ua'' (obj_get eventData ''user_agent'') m0;
         m2 = obj_set ''lang'' (obj_get eventData ''language'') m1;
         m3 = obj_set ''res'' (obj_get eventData ''screen_resolution'') m2
     in
     thenE (thenE (as_array (js_or (obj_get data ''custom_dims'') (Arr [])))
              (\<lambda>dims. foldE (set_dimension h) dims m3)) (\<lambda>m4.
     thenE (cvars_value h (obj_get data ''cvars_event'') (obj_get eventData ''x-pp-cvar'')) (\<lambda>cv.
     let m5 = obj_set ''cvar'' (JSON_stringify h cv) m4 in
     thenE (cvars_value h (obj_get data ''cvars_session'') (obj_get eventData ''x-pp-_cvar'')) (\<lambda>scv.
     let m6 = obj_set ''_cvar'' (JSON_stringify h scv) m5 in
     thenE (as_array (js_or (obj_get data ''additionalParameters'') (Arr [])))
       (\<lambda>params. foldE (set_param h) params m6)))))"

subsection \<open>\<^verbatim>\<open>requestBody\<close>\<close>

text \<open>\<^verbatim>\<open>s.replace(pat, rep)\<close> with a string pattern replaces its first occurrence.\<close>

fun replace_first :: "string \<Rightarrow> string \<Rightarrow> string \<Rightarrow> string" where
  "replace_first pat rep [] = (if pat = [] then rep else [])"
| "replace_first pat rep (c # cs) =
     (if take (length pat) (c # cs) = pat then rep @ drop (length pat) (c # cs)
      else c # replace_first pat rep cs)"

text \<open>The properties of the event whose key starts with \<^verbatim>\<open>x-pp-\<close>, the prefix removed.\<close>

definition passthrough :: "jsobj \<Rightarrow> jsobj" where
  "passthrough eventData =
     fold (\<lambda>key rb. obj_set (replace_first ''x-pp-'' [] key) (obj_get eventData key) rb)
       (filter (\<lambda>key. take 5 key = ''x-pp-'') (obj_keys eventData)) []"

text \<open>
  \<^verbatim>\<open>requestBody\<close> as it is after \<^verbatim>\<open>cleanObject\<close>: the prefixed properties of the event,
  overwritten by every property of \<^verbatim>\<open>uiParamMap\<close>, then the name and the version of the
  library, then the purge.
\<close>

definition requestBody :: "host \<Rightarrow> jsobj \<Rightarrow> jsobj \<Rightarrow> error + jsobj" where
  "requestBody h data eventData =
     thenE (uiParamMap h data eventData) (\<lambda>m.
     let rb0 = passthrough eventData;
         rb1 = fold (\<lambda>key rb. obj_set key (obj_get m key) rb) (obj_keys m) rb0;
         rb2 = obj_set ''ts_n'' (Str LIBRARY_NAME) rb1;
         rb3 = obj_set ''ts_v'' (Str LIBRARY_VERSION) rb2
     in Inr (cleanObject rb3))"

subsection \<open>Logging\<close>

text \<open>What the script reads of the incoming request and of the container.\<close>

record runtime =
  getContainerVersion :: jsval
  getRequestHeader :: "string \<Rightarrow> jsval"

text \<open>A property of a value already known to be truthy: the read cannot throw.\<close>

definition prop_of :: "jsval \<Rightarrow> string \<Rightarrow> jsval" where
  "prop_of v k = (case get_prop v k of Inl e \<Rightarrow> Undefined | Inr x \<Rightarrow> x)"

definition isLoggingEnabled :: "runtime \<Rightarrow> jsobj \<Rightarrow> bool" where
  "isLoggingEnabled rt data =
     (let containerVersion = getContainerVersion rt;
          isDebug = (truthy containerVersion \<and>
                     truthy (js_or (prop_of containerVersion ''debugMode'')
                                   (prop_of containerVersion ''previewMode'')))
      in if \<not> truthy (obj_get data ''logType'') then isDebug
         else if obj_get data ''logType'' = Str ''no'' then False
         else if obj_get data ''logType'' = Str ''debug'' then isDebug
         else obj_get data ''logType'' = Str ''always'')"

definition TRACE_ID :: "runtime \<Rightarrow> jsobj \<Rightarrow> jsval" where
  "TRACE_ID rt data =
     (if isLoggingEnabled rt data then getRequestHeader rt ''trace-id'' else Undefined)"

subsection \<open>The callback of \<^verbatim>\<open>sendHttpRequest(...).then\<close>\<close>

text \<open>The calls the script makes to the host, in the order it makes them.\<close>

datatype effect =
    LogToConsole jsval
  | SendHttpRequest string string
  | SetResponseStatus int
  | SetResponseHeader string jsval
  | GtmOnSuccess
  | GtmOnFailure

text \<open>The response the host resolves the request with; its status code is an integer.\<close>

record response =
  statusCode :: int
  headers :: jsobj
  body :: jsval

definition onResponse :: "host \<Rightarrow> runtime \<Rightarrow> jsobj \<Rightarrow> jsobj \<Rightarrow> response \<Rightarrow> effect list" where
  "onResponse h rt data rb resp =
     (if isLoggingEnabled rt data
      then [LogToConsole (JSON_stringify h (Obj
              [(''Name'', Str ''PiwikPro''),
               (''Type'', Str ''Response''),
               (''TraceId'', TRACE_ID rt data),
               (''EventName'', js_or (obj_get rb ''action_name'') (Str ''page_view'')),
               (''ResponseStatusCode'', Num (Fin (of_int (statusCode resp)))),
               (''ResponseHeaders'', Obj (headers resp)),
               (''ResponseBody'', body resp)]))]
      else [])
     @ [SetResponseStatus (statusCode resp),
        SetResponseHeader ''cache-control'' (obj_get (headers resp) ''cache-control''),
        if statusCode resp < 400 then GtmOnSuccess else GtmOnFailure]"

subsection \<open>The request\<close>

definition ENDPOINT :: "host \<Rightarrow> jsobj \<Rightarrow> string" where
  "ENDPOINT h data = ''https://'' @ to_string h (obj_get data ''instanceName'') @ ''.piwik.pro/ppms.php''"

definition HEADERS :: jsobj where
  "HEADERS = [(''content-type'', Str ''application/x-www-form-urlencoded'')]"

text \<open>\<^verbatim>\<open>encodeUriComponent\<close> of the string form of a value: the unreserved characters
  stay, every other byte becomes \<^verbatim>\<open>%XX\<close>.\<close>

definition is_unreserved :: "char \<Rightarrow> bool" where
  "is_unreserved c =
     (let n = (of_char c :: nat)
      in (48 \<le> n \<and> n \<le> 57) \<or> (65 \<le> n \<and> n \<le> 90) \<or> (97 \<le> n \<and> n \<le> 122)
         \<or> c \<in> set [CHR ''-'', CHR ''_'', CHR ''.'', CHR ''!'', CHR ''~'', CHR ''*'',
                     CHR 0x27, CHR ''('', CHR '')''])"

definition upper_hex_digit :: "nat \<Rightarrow> char" where
  "upper_hex_digit d = ''0123456789ABCDEF'' ! (d mod 16)"

definition percent_encode :: "char \<Rightarrow> string" where
  "percent_encode c =
     (if is_unreserved c then [c]
      else [CHR ''%'', upper_hex_digit (of_char c div 16), upper_hex_digit (of_char c)])"

definition encodeUriComponent :: "host \<Rightarrow> jsval \<Rightarrow> string" where
  "encodeUriComponent h v = concat (map percent_encode (to_string h v))"

text \<open>The query string; \<^verbatim>\<open>slice(0, -1)\<close> drops the last \<^verbatim>\<open>&\<close>.\<close>

definition postBody :: "host \<Rightarrow> jsobj \<Rightarrow> string" where
  "postBody h rb =
     butlast (fold (\<lambda>cur acc. acc @ cur @ ''='' @ encodeUriComponent h (obj_get rb cur) @ ''&'')
                (obj_keys rb) [])"

text \<open>The script up to the request: it throws, or logs when logging is enabled and sends
  one request.\<close>

definition script :: "host \<Rightarrow> runtime \<Rightarrow> jsobj \<Rightarrow> jsobj \<Rightarrow> error + effect list" where
  "script h rt data eventData =
     thenE (requestBody h data eventData) (\<lambda>rb.
     Inr ((if isLoggingEnabled rt data
           then [LogToConsole (JSON_stringify h (Obj
                   [(''Name'', Str ''PiwikPro''),
                    (''Type'', Str ''Request''),
                    (''TraceId'', TRACE_ID rt data),
                    (''EventName'', js_or (obj_get rb ''action_name'') (Str ''page_view'')),
                    (''RequestMethod'', Str ''POST''),
                    (''RequestUrl'', Str (ENDPOINT h data)),
                    (''RequestHeaders'', Obj HEADERS),
                    (''RequestBody'', Obj rb)]))]
           else [])
          @ [SendHttpRequest (ENDPOINT h data) (postBody h rb)]))"

section \<open>Auxiliary definitions for the statements\<close>

text \<open>A loop that writes \<open>f x\<close> under the key \<open>g x\<close> for every \<open>x\<close> selected by \<open>P\<close>:
  the shape of every \<^verbatim>\<open>forEach\<close> and \<^verbatim>\<open>reduce\<close> of the script that cannot throw.\<close>

definition write_all ::
    "('a \<Rightarrow> bool) \<Rightarrow> ('a \<Rightarrow> string) \<Rightarrow> ('a \<Rightarrow> jsval) \<Rightarrow> 'a list \<Rightarrow> jsobj \<Rightarrow> jsobj" where
  "write_all P g f xs t = fold (\<lambda>x t. if P x then obj_set (g x) (f x) t else t) xs t"

text \<open>The entries of an array that are objects, in their order.\<close>

fun objects_of :: "jsval list \<Rightarrow> jsobj list" where
  "objects_of [] = []"
| "objects_of (Obj item # xs) = item # objects_of xs"
| "objects_of (x # xs) = objects_of xs"

text \<open>
  A host to evaluate examples with. Its digest agrees with SHA-256 on the client identifier
  of the examples, \<^verbatim>\<open>GA1.2.3\<close>, its number text on 9.5 and its number reading on
  \<^verbatim>\<open>10\<close>; nothing is claimed of it elsewhere.
\<close>

definition demo_host :: host where
  "demo_host =
     \<lparr>sha256Sync = (\<lambda>s. if s = ''GA1.2.3''
         then ''c19389c8d646c3d7069200b382cec6e3ff4a31a2125a4c3a7198abee897fb7fd''
         else replicate 64 (CHR ''0'')),
      numberToString = (\<lambda>q. if q = 19 / 2 then ''9.5'' else ''0''),
      stringToNumber = (\<lambda>s. if s = ''10'' then Fin 10 else NaN)\<rparr>"

text \<open>The three candidates of \<^verbatim>\<open>ec_products\<close>, in the order the specification lists them:
  the configuration's list converted, the event's \<^verbatim>\<open>x-pp-ec_products\<close> as it is, the
  event's \<^verbatim>\<open>items\<close> converted.\<close>

definition ec_candidates :: "host \<Rightarrow> jsobj \<Rightarrow> jsobj \<Rightarrow> jsval list" where
  "ec_candidates h data eventData =
     [convertEcommerce h (obj_get data ''ec_products''),
      obj_get eventData ''x-pp-ec_products'',
      convertEcommerce h (obj_get eventData ''items'')]"

fun is_nonempty_string :: "jsval \<Rightarrow> bool" where
  "is_nonempty_string (Str s) = (s \<noteq> [])"
| "is_nonempty_string v = False"

fun is_log :: "effect \<Rightarrow> bool" where
  "is_log (LogToConsole v) = True"
| "is_log e = False"

fun is_request :: "effect \<Rightarrow> bool" where
  "is_request (SendHttpRequest url b) = True"
| "is_request e = False"

text \<open>The key and the value a row of \<^verbatim>\<open>additionalParameters\<close> or \<^verbatim>\<open>custom_dims\<close>
  writes, for a row that is neither \<^verbatim>\<open>null\<close> nor \<^verbatim>\<open>undefined\<close>.\<close>

definition param_key :: "host \<Rightarrow> jsval \<Rightarrow> string" where
  "param_key h param = to_string h (prop_of param ''key'')"

definition param_value :: "jsval \<Rightarrow> jsval" where
  "param_value param = prop_of param ''value''"

definition dimension_key :: "host \<Rightarrow> jsval \<Rightarrow> string" where
  "dimension_key h dimRow = ''dimension'' @ to_string h (prop_of dimRow ''index'')"

text \<open>The rows of a table of the configuration, \<^verbatim>\<open>(data.table || [])\<close>.\<close>

definition table_rows :: "jsobj \<Rightarrow> string \<Rightarrow> jsval list" where
  "table_rows data name = (case js_or (obj_get data name) (Arr []) of Arr xs \<Rightarrow> xs | _ \<Rightarrow> [])"

text \<open>
  Inputs on which no step of the script throws: a set \<^verbatim>\<open>search_cats\<close> is a string; the
  client identifier is a string when it is used; the tables are absent or arrays of rows
  none of which is \<^verbatim>\<open>null\<close> or \<^verbatim>\<open>undefined\<close>.
\<close>

definition rows_ok :: "jsval \<Rightarrow> bool" where
  "rows_ok v = (case js_or v (Arr []) of Arr xs \<Rightarrow> list_all (\<lambda>x. \<not> nullish x) xs | _ \<Rightarrow> False)"

definition well_typed :: "jsobj \<Rightarrow> jsobj \<Rightarrow> bool" where
  "well_typed data eventData =
     ((\<not> truthy (obj_get data ''search_cats'') \<or> getType (obj_get data ''search_cats'') = ''string'')
      \<and> (truthy (obj_get data ''_id'') \<or> \<not> truthy (obj_get eventData ''client_id'')
           \<or> getType (obj_get eventData ''client_id'') = ''string'')
      \<and> rows_ok (obj_get data ''custom_dims'')
      \<and> rows_ok (obj_get data ''cvars_event'')
      \<and> rows_ok (obj_get data ''cvars_session'')
      \<and> rows_ok (obj_get data ''additionalParameters''))"

text \<open>What the purge leaves of a value.\<close>

definition purged :: "jsval \<Rightarrow> jsval" where
  "purged v = (if nullish v then Undefined else v)"

text \<open>The keys and the entries of the object literal of \<^verbatim>\<open>uiParamMap\<close>, given its two
  values that may throw.\<close>

definition literal_keys :: "string list" where
  "literal_keys =
     [''idsite'', ''rec'', ''uia'', ''rmip'', ''action_name'', ''url'', ''urlref'', ''search'',
      ''search_cats'', ''search_count'', ''link'', ''download'', ''e_c'', ''e_a'', ''e_n'', ''e_v'',
      ''_id'', ''uid'', ''cip'', ''e_t'', ''ec_id'', ''revenue'', ''ec_st'', ''ec_sh'', ''ec_tx'',
      ''ec_dt'', ''ec_products'']"

definition literal_entries :: "host \<Rightarrow> jsobj \<Rightarrow> jsobj \<Rightarrow> jsval \<Rightarrow> jsval \<Rightarrow> jsobj" where
  "literal_entries h data eventData search_cats visitor_id =
     [(''idsite'', obj_get data ''websiteId''),
       (''rec'', Num (Fin 1)),
       (''uia'', if obj_get data ''anonymous'' = Str ''uia'' then Num (Fin 1)
                 else js_or (obj_get eventData ''x-pp-uia'') (Num (Fin 0))),
       (''rmip'', if obj_get data ''anonymous'' = Str ''rmip'' then Num (Fin 1)
                  else js_or (obj_get eventData ''x-pp-rmip'') (Num (Fin 0))),
       (''action_name'',
          js_or (js_or (obj_get data ''action_name'') (obj_get eventData ''x-pp-action_name''))
            (if obj_get data ''eventType'' = Str ''pageview''
                \<or> obj_get eventData ''event_name'' = Str ''page_view''
             then obj_get eventData ''page_title'' else Undefined)),
       (''url'', js_or (obj_get data ''url'') (obj_get eventData ''page_location'')),
       (''urlref'', js_or (obj_get data ''urlref'') (obj_get eventData ''page_referrer'')),
       (''search'', js_or (obj_get data ''search'') (obj_get eventData ''x-pp-search'')),
       (''search_cats'', search_cats),
       (''search_count'',
          if truthy (obj_get data ''search_count'') then makeNumber h (obj_get data ''search_count'')
          else obj_get eventData ''x-pp-search_count''),
       (''link'', js_or (obj_get data ''link'') (obj_get eventData ''x-pp-link'')),
       (''download'', js_or (obj_get data ''download'') (obj_get eventData ''x-pp-download'')),
       (''e_c'', js_or (obj_get data ''e_c'') (obj_get eventData ''x-pp-e_c'')),
       (''e_a'', js_or (obj_get data ''e_a'') (obj_get eventData ''x-pp-e_a'')),
       (''e_n'', js_or (obj_get data ''e_n'') (obj_get eventData ''x-pp-e_n'')),
       (''e_v'', js_or (obj_get data ''e_v'') (obj_get eventData ''x-pp-e_v'')),
       (''_id'', visitor_id),
       (''uid'', js_or (obj_get data ''uid'') (obj_get eventData ''user_id'')),
       (''cip'', js_or (obj_get data ''cip'') (obj_get eventData ''ip_override'')),
       (''e_t'', js_or (obj_get data ''e_t'') (obj_get eventData ''x-pp-e_t'')),
       (''ec_id'', js_or (js_or (obj_get data ''ec_id'') (obj_get eventData ''x-pp-ec_id''))
                     (obj_get eventData ''transaction_id'')),
       (''revenue'', js_or (obj_get data ''revenue'') (obj_get eventData ''value'')),
       (''ec_st'', js_or (obj_get data ''ec_st'') (obj_get eventData ''x-pp-ec_st'')),
       (''ec_sh'', js_or (obj_get data ''ec_sh'') (obj_get eventData ''x-pp-ec_sh'')),
       (''ec_tx'', js_or (obj_get data ''ec_tx'') (obj_get eventData ''x-pp-ec_tx'')),
       (''ec_dt'', js_or (obj_get data ''ec_dt'') (obj_get eventData ''x-pp-ec_dt'')),
       (''ec_products'', ec_products_value h data eventData)]"

text \<open>\<^verbatim>\<open>uiParamMap\<close> after all its passes, when none throws.\<close>

definition after_literal :: "host \<Rightarrow> jsobj \<Rightarrow> jsobj \<Rightarrow> jsval \<Rightarrow> jsval \<Rightarrow> jsobj \<Rightarrow> jsobj" where
  "after_literal h data eventData cv scv m0 =
     write_all (\<lambda>p. True) (param_key h) param_value (table_rows data ''additionalParameters'')
       (obj_set ''_cvar'' (JSON_stringify h scv)
         (obj_set ''cvar'' (JSON_stringify h cv)
           (write_all (\<lambda>p. True) (dimension_key h) param_value (table_rows data ''custom_dims'')
             (obj_set ''res'' (obj_get eventData ''screen_resolution'')
               (obj_set ''lang'' (obj_get eventData ''language'')
                 (obj_set ''ua'' (obj_get eventData ''user_agent'') m0))))))"

text \<open>The value of a key of \<^verbatim>\<open>requestBody\<close> before the purge.\<close>

definition before_purge :: "jsobj \<Rightarrow> jsobj \<Rightarrow> string \<Rightarrow> jsval" where
  "before_purge m eventData k =
     (if k = ''ts_v'' then Str LIBRARY_VERSION
      else if k = ''ts_n'' then Str LIBRARY_NAME
      else if k \<in> fst ` set m then obj_get m k
      else obj_get eventData (''x-pp-'' @ k))"

text \<open>The fields of the literal of the form \<^verbatim>\<open>data.f || ...\<close>.\<close>

definition direct_fields :: "string list" where
  "direct_fields =
     [''action_name'', ''url'', ''urlref'', ''search'', ''link'', ''download'', ''e_c'', ''e_a'',
      ''e_n'', ''e_v'', ''_id'', ''uid'', ''cip'', ''e_t'', ''ec_id'', ''revenue'', ''ec_st'',
      ''ec_sh'', ''ec_tx'', ''ec_dt'']"

text \<open>The fields of the literal of the form \<^verbatim>\<open>data.f || eventData.g\<close>, each with the
  property \<open>g\<close> of the event.\<close>

definition event_fallback :: "(string \<times> string) list" where
  "event_fallback =
     [(''url'', ''page_location''), (''urlref'', ''page_referrer''), (''search'', ''x-pp-search''),
      (''link'', ''x-pp-link''), (''download'', ''x-pp-download''), (''e_c'', ''x-pp-e_c''),
      (''e_a'', ''x-pp-e_a''), (''e_n'', ''x-pp-e_n''), (''e_v'', ''x-pp-e_v''),
      (''uid'', ''user_id''), (''cip'', ''ip_override''), (''e_t'', ''x-pp-e_t''),
      (''revenue'', ''value''), (''ec_st'', ''x-pp-ec_st''), (''ec_sh'', ''x-pp-ec_sh''),
      (''ec_tx'', ''x-pp-ec_tx''), (''ec_dt'', ''x-pp-ec_dt'')]"

text \<open>The parameter the script resolves for a key: its value in \<^verbatim>\<open>requestBody\<close> after
  the purge, \<^verbatim>\<open>undefined\<close> for a key that is absent.\<close>

definition resolved :: "host \<Rightarrow> jsobj \<Rightarrow> jsobj \<Rightarrow> string \<Rightarrow> error + jsval" where
  "resolved h data eventData k =
     (case requestBody h data eventData of Inl e \<Rightarrow> Inl e | Inr rb \<Rightarrow> Inr (obj_get rb k))"

text \<open>The keys of \<^verbatim>\<open>uiParamMap\<close> after all its passes.\<close>

definition ui_keys :: "host \<Rightarrow> jsobj \<Rightarrow> string set" where
  "ui_keys h data =
     set literal_keys \<union> {''ua'', ''lang'', ''res'', ''cvar'', ''_cvar''}
     \<union> dimension_key h ` set (table_rows data ''custom_dims'')
     \<union> param_key h ` set (table_rows data ''additionalParameters'')"

text \<open>The value \<^verbatim>\<open>uiParamMap\<close> has for a key after all its passes.\<close>

definition ui_param :: "host \<Rightarrow> jsobj \<Rightarrow> jsobj \<Rightarrow> string \<Rightarrow> error + jsval" where
  "ui_param h data eventData k =
     (case uiParamMap h data eventData of Inl e \<Rightarrow> Inl e | Inr m \<Rightarrow> Inr (obj_get m k))"

text \<open>A runtime to evaluate examples with: a container in debug mode.\<close>

definition demo_runtime :: runtime where
  "demo_runtime =
     \<lparr>getContainerVersion = Obj [(''debugMode'', Bool True), (''previewMode'', Bool False)],
      getRequestHeader = (\<lambda>name. if name = ''trace-id'' then Str ''t-1'' else Undefined)\<rparr>"

section \<open>Properties of objects\<close>

lemma obj_get_obj_update:
  "obj_get (obj_update k v m) k' = (if k' = k then v else obj_get m k')"
  by (induction m) (auto simp: obj_get_def)

lemma keys_obj_update: "fst ` set (obj_update k v m) = insert k (fst ` set m)"
  by (induction m) auto

lemma distinct_obj_update:
  "distinct (map fst m) \<Longrightarrow> distinct (map fst (obj_update k v m))"
  by (induction m) (auto simp: keys_obj_update)

lemma keys_insert_index: "fst ` set (insert_index k v m) = insert k (fst ` set m)"
  by (induction m) auto

lemma obj_get_insert_index:
  "k \<notin> fst ` set m \<Longrightarrow>
     obj_get (insert_index k v m) k' = (if k' = k then v else obj_get m k')"
  by (induction m) (auto simp: obj_get_def)

lemma distinct_insert_index:
  "distinct (map fst m) \<Longrightarrow> k \<notin> fst ` set m \<Longrightarrow> distinct (map fst (insert_index k v m))"
  by (induction m) (auto simp: keys_insert_index)

lemma obj_get_obj_set: "obj_get (obj_set k v m) k' = (if k' = k then v else obj_get m k')"
  by (simp add: obj_set_def obj_get_insert_index obj_get_obj_update)

lemma keys_obj_set: "fst ` set (obj_set k v m) = insert k (fst ` set m)"
  by (simp add: obj_set_def keys_insert_index keys_obj_update)

lemma set_obj_keys: "set (obj_keys m) = fst ` set m"
  by (auto simp: obj_keys_def Let_def)

lemma obj_get_absent: "k \<notin> fst ` set m \<Longrightarrow> obj_get m k = Undefined"
proof -
  assume "k \<notin> fst ` set m"
  then have "map_of m k = None" by (simp add: map_of_eq_None_iff)
  then show ?thesis by (simp add: obj_get_def)
qed

lemma distinct_obj_set: "distinct (map fst m) \<Longrightarrow> distinct (map fst (obj_set k v m))"
  by (simp add: obj_set_def distinct_insert_index distinct_obj_update)

lemma obj_get_distinct: "distinct (map fst m) \<Longrightarrow> (k, v) \<in> set m \<Longrightarrow> obj_get m k = v"
  by (simp add: obj_get_def)

lemma write_all_Nil [simp]: "write_all P g f [] t = t"
  by (simp add: write_all_def)

lemma write_all_Cons [simp]:
  "write_all P g f (x # xs) t = write_all P g f xs (if P x then obj_set (g x) (f x) t else t)"
  by (simp add: write_all_def)

lemma keys_write_all: "fst ` set (write_all P g f xs t) = g ` {x \<in> set xs. P x} \<union> fst ` set t"
  by (induction xs arbitrary: t) (auto simp: keys_obj_set)

lemma distinct_write_all:
  "distinct (map fst t) \<Longrightarrow> distinct (map fst (write_all P g f xs t))"
  by (induction xs arbitrary: t) (auto simp: distinct_obj_set)

lemma get_write_all_other:
  "\<forall>x \<in> set xs. P x \<longrightarrow> g x \<noteq> k \<Longrightarrow> obj_get (write_all P g f xs t) k = obj_get t k"
  by (induction xs arbitrary: t) (auto simp: obj_get_obj_set)

lemma write_all_snoc:
  "write_all P g f (xs @ [a]) t =
     (if P a then obj_set (g a) (f a) (write_all P g f xs t) else write_all P g f xs t)"
  by (simp add: write_all_def)

lemma get_write_all_snoc:
  "obj_get (write_all P g f (xs @ [a]) t) k =
     (if P a \<and> g a = k then f a else obj_get (write_all P g f xs t) k)"
  by (auto simp: write_all_snoc obj_get_obj_set)

lemma get_write_all_same:
  "x \<in> set xs \<Longrightarrow> P x \<Longrightarrow> (\<And>y. y \<in> set xs \<Longrightarrow> P y \<Longrightarrow> g y = g x \<Longrightarrow> f y = f x) \<Longrightarrow>
     obj_get (write_all P g f xs t) (g x) = f x"
proof (induction xs rule: rev_induct)
  case Nil
  then show ?case by simp
next
  case (snoc a xs)
  show ?case
  proof (cases "P a \<and> g a = g x")
    case True
    then have "f a = f x" using snoc.prems(3)[of a] by simp
    then show ?thesis using True by (simp add: get_write_all_snoc)
  next
    case False
    then have "a \<noteq> x" using snoc.prems(2) by blast
    then have xin: "x \<in> set xs" using snoc.prems(1) by simp
    have "obj_get (write_all P g f xs t) (g x) = f x"
    proof (rule snoc.IH[OF xin snoc.prems(2)])
      fix y assume "y \<in> set xs" "P y" "g y = g x"
      then show "f y = f x" using snoc.prems(3)[of y] by simp
    qed
    then show ?thesis using False by (auto simp: get_write_all_snoc)
  qed
qed

lemma get_write_all_last:
  assumes "P x" and "\<forall>y \<in> set ys. P y \<longrightarrow> g y \<noteq> g x"
  shows "obj_get (write_all P g f (xs @ x # ys) t) (g x) = f x"
proof -
  have "write_all P g f (xs @ x # ys) t = write_all P g f ys (write_all P g f (xs @ [x]) t)"
    by (simp add: write_all_def)
  then show ?thesis
    using assms by (simp add: get_write_all_other get_write_all_snoc)
qed

lemma cleanObject_write_all:
  "cleanObject obj = write_all (\<lambda>k. \<not> nullish (obj_get obj k)) (\<lambda>k. k) (obj_get obj) (obj_keys obj) []"
  by (simp add: cleanObject_def write_all_def)

lemma keys_cleanObject:
  "fst ` set (cleanObject obj) = {k \<in> fst ` set obj. \<not> nullish (obj_get obj k)}"
  by (auto simp: cleanObject_write_all keys_write_all set_obj_keys)

lemma get_cleanObject:
  "obj_get (cleanObject obj) k = (if nullish (obj_get obj k) then Undefined else obj_get obj k)"
proof (cases "k \<in> fst ` set obj \<and> \<not> nullish (obj_get obj k)")
  case True
  then have "k \<in> set (obj_keys obj)" and "\<not> nullish (obj_get obj k)"
    by (simp_all add: set_obj_keys)
  then have "obj_get (write_all (\<lambda>k. \<not> nullish (obj_get obj k)) (\<lambda>k. k) (obj_get obj)
                (obj_keys obj) []) k = obj_get obj k"
    by (rule get_write_all_same) simp
  then show ?thesis using True by (simp add: cleanObject_write_all)
next
  case False
  then have "k \<notin> fst ` set (cleanObject obj)"
    by (simp add: keys_cleanObject)
  then have "obj_get (cleanObject obj) k = Undefined" by (rule obj_get_absent)
  moreover have "nullish (obj_get obj k)"
    using False by (auto simp: obj_get_absent nullish_def)
  ultimately show ?thesis by simp
qed

lemma distinct_cleanObject: "distinct (map fst (cleanObject obj))"
  by (simp add: cleanObject_write_all distinct_write_all)

lemma entry_cleanObject:
  assumes "(k, v) \<in> set (cleanObject obj)"
  shows "v = obj_get obj k \<and> \<not> nullish v"
proof -
  have "obj_get (cleanObject obj) k = v"
    using assms distinct_cleanObject by (rule obj_get_distinct[rotated])
  moreover have "k \<in> fst ` set (cleanObject obj)" using assms by force
  ultimately show ?thesis by (auto simp: get_cleanObject keys_cleanObject)
qed


section \<open>Steps that may throw\<close>

lemma thenE_Inr_iff: "thenE m f = Inr y \<longleftrightarrow> (\<exists>x. m = Inr x \<and> f x = Inr y)"
  by (cases m) (simp_all add: thenE_def)

lemma thenE_Inr [simp]: "thenE (Inr x) f = f x"
  by (simp add: thenE_def)

lemma thenE_Inl [simp]: "thenE (Inl e) f = Inl e"
  by (simp add: thenE_def)

lemma get_prop_ok: "\<not> nullish v \<Longrightarrow> get_prop v k = Inr (prop_of v k)"
  by (cases v) (simp_all add: nullish_def prop_of_def)

lemma get_prop_err: "nullish v \<Longrightarrow> get_prop v k = Inl TypeError"
  by (cases v) (simp_all add: nullish_def)

lemma set_param_ok:
  "\<not> nullish p \<Longrightarrow> set_param h p m = Inr (obj_set (param_key h p) (param_value p) m)"
  by (simp add: set_param_def get_prop_ok param_key_def param_value_def)

lemma set_param_err: "nullish p \<Longrightarrow> set_param h p m = Inl TypeError"
  by (simp add: set_param_def get_prop_err)

lemma set_dimension_ok:
  "\<not> nullish p \<Longrightarrow> set_dimension h p m = Inr (obj_set (dimension_key h p) (param_value p) m)"
  by (simp add: set_dimension_def get_prop_ok dimension_key_def param_value_def)

lemma set_dimension_err: "nullish p \<Longrightarrow> set_dimension h p m = Inl TypeError"
  by (simp add: set_dimension_def get_prop_err)

lemma foldE_set_param:
  "list_all (\<lambda>x. \<not> nullish x) ps \<Longrightarrow>
     foldE (set_param h) ps m = Inr (write_all (\<lambda>p. True) (param_key h) param_value ps m)"
  by (induction ps arbitrary: m) (simp_all add: set_param_ok)

lemma foldE_set_param_Inr:
  "foldE (set_param h) ps m = Inr m' \<Longrightarrow> list_all (\<lambda>x. \<not> nullish x) ps"
proof (induction ps arbitrary: m)
  case Nil
  show ?case by simp
next
  case (Cons p ps)
  show ?case
  proof (cases "nullish p")
    case True
    with Cons.prems show ?thesis by (simp add: set_param_err)
  next
    case False
    with Cons.prems have "foldE (set_param h) ps (obj_set (param_key h p) (param_value p) m) = Inr m'"
      by (simp add: set_param_ok)
    then have "list_all (\<lambda>x. \<not> nullish x) ps" by (rule Cons.IH)
    with False show ?thesis by simp
  qed
qed

lemma foldE_set_dimension:
  "list_all (\<lambda>x. \<not> nullish x) ps \<Longrightarrow>
     foldE (set_dimension h) ps m = Inr (write_all (\<lambda>p. True) (dimension_key h) param_value ps m)"
  by (induction ps arbitrary: m) (simp_all add: set_dimension_ok)

lemma foldE_set_dimension_Inr:
  "foldE (set_dimension h) ps m = Inr m' \<Longrightarrow> list_all (\<lambda>x. \<not> nullish x) ps"
proof (induction ps arbitrary: m)
  case Nil
  show ?case by simp
next
  case (Cons p ps)
  show ?case
  proof (cases "nullish p")
    case True
    with Cons.prems show ?thesis by (simp add: set_dimension_err)
  next
    case False
    with Cons.prems have "foldE (set_dimension h) ps (obj_set (dimension_key h p) (param_value p) m) = Inr m'"
      by (simp add: set_dimension_ok)
    then have "list_all (\<lambda>x. \<not> nullish x) ps" by (rule Cons.IH)
    with False show ?thesis by simp
  qed
qed

lemma as_array_rows:
  "as_array (js_or (obj_get data name) (Arr [])) = Inr xs \<Longrightarrow> xs = table_rows data name"
  by (cases "js_or (obj_get data name) (Arr [])") (simp_all add: table_rows_def)

lemma as_array_rows_ok:
  "rows_ok (obj_get data name) \<Longrightarrow>
     as_array (js_or (obj_get data name) (Arr [])) = Inr (table_rows data name)
     \<and> list_all (\<lambda>x. \<not> nullish x) (table_rows data name)"
  by (cases "js_or (obj_get data name) (Arr [])") (simp_all add: table_rows_def rows_ok_def)

section \<open>The map of the parameters\<close>

lemma uiParamMap_Inr:
  assumes "uiParamMap h data eventData = Inr m"
  obtains m0 cv scv where
    "uiParamMap_literal h data eventData = Inr m0"
    "cvars_value h (obj_get data ''cvars_event'') (obj_get eventData ''x-pp-cvar'') = Inr cv"
    "cvars_value h (obj_get data ''cvars_session'') (obj_get eventData ''x-pp-_cvar'') = Inr scv"
    "list_all (\<lambda>x. \<not> nullish x) (table_rows data ''custom_dims'')"
    "list_all (\<lambda>x. \<not> nullish x) (table_rows data ''additionalParameters'')"
    "m = after_literal h data eventData cv scv m0"
proof -
  from assms obtain m0 dims m4 cv scv params where
    lit: "uiParamMap_literal h data eventData = Inr m0"
    and dims: "as_array (js_or (obj_get data ''custom_dims'') (Arr [])) = Inr dims"
    and m4: "foldE (set_dimension h) dims
               (obj_set ''res'' (obj_get eventData ''screen_resolution'')
                 (obj_set ''lang'' (obj_get eventData ''language'')
                   (obj_set ''ua'' (obj_get eventData ''user_agent'') m0))) = Inr m4"
    and cv: "cvars_value h (obj_get data ''cvars_event'') (obj_get eventData ''x-pp-cvar'') = Inr cv"
    and scv: "cvars_value h (obj_get data ''cvars_session'') (obj_get eventData ''x-pp-_cvar'') = Inr scv"
    and params: "as_array (js_or (obj_get data ''additionalParameters'') (Arr [])) = Inr params"
    and m: "foldE (set_param h) params
              (obj_set ''_cvar'' (JSON_stringify h scv) (obj_set ''cvar'' (JSON_stringify h cv) m4)) = Inr m"
    unfolding uiParamMap_def Let_def thenE_Inr_iff by blast
  have d: "dims = table_rows data ''custom_dims''" using dims by (rule as_array_rows)
  have p: "params = table_rows data ''additionalParameters''" using params by (rule as_array_rows)
  have dok: "list_all (\<lambda>x. \<not> nullish x) dims" using m4 by (rule foldE_set_dimension_Inr)
  have pok: "list_all (\<lambda>x. \<not> nullish x) params" using m by (rule foldE_set_param_Inr)
  have "m = after_literal h data eventData cv scv m0"
    using m4 m d p dok pok
    by (simp add: foldE_set_dimension foldE_set_param after_literal_def)
  with lit cv scv dok pok d p that show thesis by simp
qed

lemma uiParamMap_literal_entries:
  "uiParamMap_literal h data eventData =
     thenE (search_cats_value h data eventData) (\<lambda>search_cats.
     thenE (visitor_id_value h data eventData) (\<lambda>visitor_id.
     Inr (literal_entries h data eventData search_cats visitor_id)))"
  unfolding uiParamMap_literal_def literal_entries_def by (rule refl)

lemma uiParamMap_literal_Inr:
  assumes "uiParamMap_literal h data eventData = Inr m0"
  obtains search_cats visitor_id where
    "search_cats_value h data eventData = Inr search_cats"
    "visitor_id_value h data eventData = Inr visitor_id"
    "m0 = literal_entries h data eventData search_cats visitor_id"
  using assms unfolding uiParamMap_literal_entries thenE_Inr_iff by blast

lemma keys_literal_entries:
  "map fst (literal_entries h data eventData sc vid) = literal_keys"
  unfolding literal_entries_def literal_keys_def by simp

lemma uiParamMap_literal_keys:
  "uiParamMap_literal h data eventData = Inr m0 \<Longrightarrow> map fst m0 = literal_keys"
  by (erule uiParamMap_literal_Inr) (simp add: keys_literal_entries)

lemma keys_after_literal:
  "fst ` set (after_literal h data eventData cv scv m0) =
     param_key h ` set (table_rows data ''additionalParameters'')
     \<union> {''_cvar'', ''cvar''}
     \<union> dimension_key h ` set (table_rows data ''custom_dims'')
     \<union> {''res'', ''lang'', ''ua''} \<union> fst ` set m0"
  unfolding after_literal_def keys_write_all keys_obj_set by blast

lemma dimension_key_prefix: "take 9 (dimension_key h p) = ''dimension''"
  by (simp add: dimension_key_def)

lemma get_after_literal:
  assumes "k \<notin> param_key h ` set (table_rows data ''additionalParameters'')"
    and "take 9 k \<noteq> ''dimension''"
    and "k \<notin> {''_cvar'', ''cvar'', ''res'', ''lang'', ''ua''}"
  shows "obj_get (after_literal h data eventData cv scv m0) k = obj_get m0 k"
proof -
  have a: "\<forall>p \<in> set (table_rows data ''additionalParameters''). True \<longrightarrow> param_key h p \<noteq> k"
    using assms(1) by auto
  have d: "\<forall>p \<in> set (table_rows data ''custom_dims''). True \<longrightarrow> dimension_key h p \<noteq> k"
    using assms(2) dimension_key_prefix by auto
  show ?thesis
    using assms(3)
    by (simp add: after_literal_def get_write_all_other[OF a] get_write_all_other[OF d]
        obj_get_obj_set)
qed

text \<open>The last row of the free-form table that has a given key decides the value.\<close>

lemma get_after_literal_param:
  assumes "p \<in> set (table_rows data ''additionalParameters'')"
    and "\<And>q. q \<in> set (table_rows data ''additionalParameters'') \<Longrightarrow>
            param_key h q = param_key h p \<Longrightarrow> param_value q = param_value p"
  shows "obj_get (after_literal h data eventData cv scv m0) (param_key h p) = param_value p"
  unfolding after_literal_def
proof (rule get_write_all_same)
  show "p \<in> set (table_rows data ''additionalParameters'')" by (rule assms(1))
  show True ..
  fix q assume "q \<in> set (table_rows data ''additionalParameters'')"
    and "param_key h q = param_key h p"
  then show "param_value q = param_value p" by (rule assms(2))
qed

lemma get_after_literal_last:
  assumes "table_rows data ''additionalParameters'' = before @ p # after"
    and "param_key h p \<notin> param_key h ` set after"
  shows "obj_get (after_literal h data eventData cv scv m0) (param_key h p) = param_value p"
proof -
  have "\<forall>q \<in> set after. True \<longrightarrow> param_key h q \<noteq> param_key h p"
    using assms(2) by (metis imageI)
  then show ?thesis
    unfolding after_literal_def assms(1) by (intro get_write_all_last) simp_all
qed

section \<open>The prefixed properties of the event\<close>

lemma replace_first_prefix:
  "take (length pat) s = pat \<Longrightarrow> replace_first pat rep s = rep @ drop (length pat) s"
  by (cases s) auto

lemma replace_first_xpp:
  assumes "take 5 s = ''x-pp-''"
  shows "replace_first ''x-pp-'' [] s = drop 5 s"
proof -
  have l: "length ''x-pp-'' = 5" by simp
  have "take (length ''x-pp-'') s = ''x-pp-''" unfolding l by (rule assms)
  then have "replace_first ''x-pp-'' [] s = [] @ drop (length ''x-pp-'') s"
    by (rule replace_first_prefix)
  then show ?thesis unfolding l by simp
qed

lemma fold_filter:
  "fold f (filter P xs) t = fold (\<lambda>x t. if P x then f x t else t) xs t"
  by (induction xs arbitrary: t) simp_all

lemma passthrough_write_all:
  "passthrough eventData =
     write_all (\<lambda>key. take 5 key = ''x-pp-'') (drop 5) (obj_get eventData) (obj_keys eventData) []"
proof -
  have "(\<lambda>key rb. if take 5 key = ''x-pp-''
                    then obj_set (replace_first ''x-pp-'' [] key) (obj_get eventData key) rb else rb)
        = (\<lambda>key rb. if take 5 key = ''x-pp-''
                    then obj_set (drop 5 key) (obj_get eventData key) rb else rb)"
    using replace_first_xpp by (auto simp: fun_eq_iff)
  then show ?thesis
    by (simp add: passthrough_def write_all_def fold_filter)
qed

lemma take_drop_prefix: "take 5 key = ''x-pp-'' \<Longrightarrow> key = ''x-pp-'' @ drop 5 key"
  by (metis append_take_drop_id)

lemma get_passthrough:
  "obj_get (passthrough eventData) r = obj_get eventData (''x-pp-'' @ r)"
proof (cases "''x-pp-'' @ r \<in> fst ` set eventData")
  case True
  have "obj_get (write_all (\<lambda>key. take 5 key = ''x-pp-'') (drop 5) (obj_get eventData)
             (obj_keys eventData) []) (drop 5 (''x-pp-'' @ r)) = obj_get eventData (''x-pp-'' @ r)"
  proof (rule get_write_all_same)
    show "''x-pp-'' @ r \<in> set (obj_keys eventData)" using True by (simp add: set_obj_keys)
    show "take 5 (''x-pp-'' @ r) = ''x-pp-''" by simp
    fix y assume "take 5 y = ''x-pp-''" and "drop 5 y = drop 5 (''x-pp-'' @ r)"
    then have "y = ''x-pp-'' @ r" using take_drop_prefix[of y] by simp
    then show "obj_get eventData y = obj_get eventData (''x-pp-'' @ r)" by simp
  qed
  then show ?thesis by (simp add: passthrough_write_all)
next
  case False
  have "\<forall>key \<in> set (obj_keys eventData). take 5 key = ''x-pp-'' \<longrightarrow> drop 5 key \<noteq> r"
  proof (intro ballI impI notI)
    fix key assume "key \<in> set (obj_keys eventData)" "take 5 key = ''x-pp-''" "drop 5 key = r"
    then have "''x-pp-'' @ r \<in> fst ` set eventData"
      using take_drop_prefix[of key] by (simp add: set_obj_keys)
    with False show False by simp
  qed
  then have "obj_get (passthrough eventData) r = obj_get [] r"
    unfolding passthrough_write_all by (rule get_write_all_other)
  then show ?thesis using False by (simp add: obj_get_absent) 
qed

section \<open>The request body\<close>

lemma get_overwrite:
  "obj_get (fold (\<lambda>key rb. obj_set key (obj_get m key) rb) (obj_keys m) rb0) k =
     (if k \<in> fst ` set m then obj_get m k else obj_get rb0 k)"
proof -
  have w: "fold (\<lambda>key rb. obj_set key (obj_get m key) rb) (obj_keys m) rb0
        = write_all (\<lambda>key. True) (\<lambda>key. key) (obj_get m) (obj_keys m) rb0"
    by (simp add: write_all_def)
  show ?thesis
  proof (cases "k \<in> fst ` set m")
    case True
    then have "k \<in> set (obj_keys m)" by (simp add: set_obj_keys)
    then have "obj_get (write_all (\<lambda>key. True) (\<lambda>key. key) (obj_get m) (obj_keys m) rb0) k = obj_get m k"
      by (rule get_write_all_same) simp_all
    then show ?thesis using True by (simp add: w)
  next
    case False
    then have "\<forall>x \<in> set (obj_keys m). True \<longrightarrow> x \<noteq> k" by (auto simp: set_obj_keys)
    then have "obj_get (write_all (\<lambda>key. True) (\<lambda>key. key) (obj_get m) (obj_keys m) rb0) k = obj_get rb0 k"
      by (rule get_write_all_other)
    then show ?thesis using False by (simp add: w)
  qed
qed

lemma requestBody_Inr:
  assumes "requestBody h data eventData = Inr rb"
  obtains m where "uiParamMap h data eventData = Inr m"
    and "\<And>k. obj_get rb k = purged (before_purge m eventData k)"
    and "\<And>k. k \<in> fst ` set rb \<longleftrightarrow> \<not> nullish (before_purge m eventData k)"
proof -
  from assms obtain m where m: "uiParamMap h data eventData = Inr m"
    and rb: "rb = cleanObject (obj_set ''ts_v'' (Str LIBRARY_VERSION) (obj_set ''ts_n'' (Str LIBRARY_NAME)
               (fold (\<lambda>key rb. obj_set key (obj_get m key) rb) (obj_keys m) (passthrough eventData))))"
    unfolding requestBody_def Let_def thenE_Inr_iff by auto
  let ?rb3 = "obj_set ''ts_v'' (Str LIBRARY_VERSION) (obj_set ''ts_n'' (Str LIBRARY_NAME)
               (fold (\<lambda>key rb. obj_set key (obj_get m key) rb) (obj_keys m) (passthrough eventData)))"
  have g: "obj_get ?rb3 k = before_purge m eventData k" for k
    by (simp add: obj_get_obj_set get_overwrite get_passthrough before_purge_def)
  have get: "obj_get rb k = purged (before_purge m eventData k)" for k
    by (simp add: rb get_cleanObject g purged_def)
  have keys: "k \<in> fst ` set rb \<longleftrightarrow> \<not> nullish (before_purge m eventData k)" for k
  proof -
    have "k \<notin> fst ` set ?rb3 \<Longrightarrow> nullish (before_purge m eventData k)"
      using obj_get_absent[of k ?rb3] by (simp add: g nullish_def)
    then show ?thesis
      unfolding rb keys_cleanObject using g[of k] by auto
  qed
  from m get keys that show thesis by blast
qed

lemma obj_get_Nil [simp]: "obj_get [] k = Undefined"
  by (simp add: obj_get_def)

lemma obj_get_Cons [simp]: "obj_get ((k, v) # m) k' = (if k' = k then v else obj_get m k')"
  by (simp add: obj_get_def)

lemma get_literal_direct:
  assumes "f \<in> set direct_fields" and "truthy (obj_get data f)"
    and "visitor_id_value h data eventData = Inr vid"
  shows "obj_get (literal_entries h data eventData sc vid) f = obj_get data f"
proof -
  have vid: "truthy (obj_get data ''_id'') \<longrightarrow> vid = obj_get data ''_id''"
    using assms(3) by (auto simp: visitor_id_value_def)
  have "list_all (\<lambda>f. truthy (obj_get data f) \<longrightarrow>
           obj_get (literal_entries h data eventData sc vid) f = obj_get data f) direct_fields"
    using vid by (simp add: direct_fields_def literal_entries_def js_or_def)
  then show ?thesis using assms(1,2) by (simp add: list_all_iff)
qed

lemma direct_fields_not_special:
  "f \<in> set direct_fields \<Longrightarrow>
     take 9 f \<noteq> ''dimension'' \<and> f \<notin> {''_cvar'', ''cvar'', ''res'', ''lang'', ''ua''}
     \<and> f \<in> set literal_keys \<and> f \<noteq> ''ts_n'' \<and> f \<noteq> ''ts_v''"
proof -
  have "list_all (\<lambda>f. take 9 f \<noteq> ''dimension'' \<and> f \<notin> {''_cvar'', ''cvar'', ''res'', ''lang'', ''ua''}
     \<and> f \<in> set literal_keys \<and> f \<noteq> ''ts_n'' \<and> f \<noteq> ''ts_v'') direct_fields"
    by (simp add: direct_fields_def literal_keys_def)
  then show "f \<in> set direct_fields \<Longrightarrow>
     take 9 f \<noteq> ''dimension'' \<and> f \<notin> {''_cvar'', ''cvar'', ''res'', ''lang'', ''ua''}
     \<and> f \<in> set literal_keys \<and> f \<noteq> ''ts_n'' \<and> f \<noteq> ''ts_v''"
    by (simp add: list_all_iff)
qed

section \<open>Runs that do not throw\<close>

lemma cvar_entry_ok:
  "\<not> nullish p \<Longrightarrow> \<exists>acc'. cvar_entry h p acc = Inr acc'"
  by (simp add: cvar_entry_def get_prop_ok)

lemma foldE_cvar_entry:
  "list_all (\<lambda>x. \<not> nullish x) ps \<Longrightarrow> \<exists>acc'. foldE (cvar_entry h) ps acc = Inr acc'"
proof (induction ps arbitrary: acc)
  case Nil
  show ?case by simp
next
  case (Cons p ps)
  then obtain acc1 where "cvar_entry h p acc = Inr acc1"
    using cvar_entry_ok[of p h acc] by auto
  then show ?case using Cons by simp
qed

lemma cvars_value_ok:
  assumes "rows_ok cvars"
  shows "\<exists>cv. cvars_value h cvars inherited = Inr cv"
proof (cases "truthy cvars")
  case False
  then show ?thesis by (simp add: cvars_value_def)
next
  case True
  then have "js_or cvars (Arr []) = cvars" by (simp add: js_or_def)
  with assms obtain xs where xs: "cvars = Arr xs" "list_all (\<lambda>x. \<not> nullish x) xs"
    by (auto simp: rows_ok_def split: jsval.splits)
  obtain acc where "foldE (cvar_entry h) xs [] = Inr acc"
    using foldE_cvar_entry[OF xs(2)] by blast
  then show ?thesis using xs(1) by (simp add: cvars_value_def)
qed

lemma search_cats_value_ok:
  assumes "\<not> truthy (obj_get data ''search_cats'') \<or> getType (obj_get data ''search_cats'') = ''string''"
  shows "\<exists>sc. search_cats_value h data eventData = Inr sc"
proof (cases "truthy (obj_get data ''search_cats'')")
  case False
  then show ?thesis by (simp add: search_cats_value_def)
next
  case True
  with assms have "getType (obj_get data ''search_cats'') = ''string''" by simp
  then obtain s where "obj_get data ''search_cats'' = Str s"
    by (cases "obj_get data ''search_cats''") simp_all
  then show ?thesis by (simp add: search_cats_value_def)
qed

lemma visitor_id_value_ok:
  assumes "truthy (obj_get data ''_id'') \<or> \<not> truthy (obj_get eventData ''client_id'')
           \<or> getType (obj_get eventData ''client_id'') = ''string''"
  shows "\<exists>vid. visitor_id_value h data eventData = Inr vid"
proof (cases "truthy (obj_get data ''_id'') \<or> \<not> truthy (obj_get eventData ''client_id'')")
  case True
  then show ?thesis by (auto simp: visitor_id_value_def getClientIdHash_def)
next
  case False
  with assms have "getType (obj_get eventData ''client_id'') = ''string''" by simp
  then obtain s where "obj_get eventData ''client_id'' = Str s"
    by (cases "obj_get eventData ''client_id''") simp_all
  then show ?thesis by (simp add: visitor_id_value_def getClientIdHash_def Let_def)
qed

lemma uiParamMap_ok:
  assumes "well_typed data eventData"
  shows "\<exists>m. uiParamMap h data eventData = Inr m"
proof -
  obtain sc where sc: "search_cats_value h data eventData = Inr sc"
    using assms search_cats_value_ok unfolding well_typed_def by blast
  obtain vid where vid: "visitor_id_value h data eventData = Inr vid"
    using assms visitor_id_value_ok unfolding well_typed_def by blast
  obtain cv where cv: "cvars_value h (obj_get data ''cvars_event'') (obj_get eventData ''x-pp-cvar'') = Inr cv"
    using assms cvars_value_ok unfolding well_typed_def by blast
  obtain scv where scv: "cvars_value h (obj_get data ''cvars_session'') (obj_get eventData ''x-pp-_cvar'') = Inr scv"
    using assms cvars_value_ok unfolding well_typed_def by blast
  have dims: "as_array (js_or (obj_get data ''custom_dims'') (Arr [])) = Inr (table_rows data ''custom_dims'')"
    "list_all (\<lambda>x. \<not> nullish x) (table_rows data ''custom_dims'')"
    using assms as_array_rows_ok[of data "''custom_dims''"] unfolding well_typed_def by simp_all
  have params: "as_array (js_or (obj_get data ''additionalParameters'') (Arr [])) = Inr (table_rows data ''additionalParameters'')"
    "list_all (\<lambda>x. \<not> nullish x) (table_rows data ''additionalParameters'')"
    using assms as_array_rows_ok[of data "''additionalParameters''"] unfolding well_typed_def by simp_all
  have lit: "uiParamMap_literal h data eventData = Inr (literal_entries h data eventData sc vid)"
    by (simp add: uiParamMap_literal_entries sc vid)
  show ?thesis
    unfolding uiParamMap_def
    by (simp add: lit dims params cv scv foldE_set_dimension foldE_set_param Let_def)
qed

lemma requestBody_ok:
  assumes "well_typed data eventData"
  shows "\<exists>rb. requestBody h data eventData = Inr rb"
proof -
  obtain m where "uiParamMap h data eventData = Inr m"
    using uiParamMap_ok[OF assms] by blast
  then show ?thesis by (simp add: requestBody_def Let_def)
qed

section \<open>Keys of the literal in the request body\<close>

lemma truthy_not_nullish: "truthy v \<Longrightarrow> \<not> nullish v"
  by (cases v) (simp_all add: nullish_def)

lemma purged_truthy [simp]: "truthy v \<Longrightarrow> purged v = v"
  by (simp add: purged_def truthy_not_nullish)

lemma purged_simps [simp]:
  "purged (Str s) = Str s" "purged (Num n) = Num n" "purged Undefined = Undefined"
  "purged Null = Undefined"
  by (simp_all add: purged_def nullish_def)

lemma literal_keys_not_special:
  "k \<in> set literal_keys \<Longrightarrow>
     take 9 k \<noteq> ''dimension'' \<and> k \<notin> {''_cvar'', ''cvar'', ''res'', ''lang'', ''ua''}
     \<and> k \<noteq> ''ts_n'' \<and> k \<noteq> ''ts_v''"
proof -
  have "list_all (\<lambda>k. take 9 k \<noteq> ''dimension'' \<and> k \<notin> {''_cvar'', ''cvar'', ''res'', ''lang'', ''ua''}
     \<and> k \<noteq> ''ts_n'' \<and> k \<noteq> ''ts_v'') literal_keys"
    by (simp add: literal_keys_def)
  then show "k \<in> set literal_keys \<Longrightarrow>
     take 9 k \<noteq> ''dimension'' \<and> k \<notin> {''_cvar'', ''cvar'', ''res'', ''lang'', ''ua''}
     \<and> k \<noteq> ''ts_n'' \<and> k \<noteq> ''ts_v''"
    by (simp add: list_all_iff)
qed

text \<open>A key of the literal that no free-form row overwrites keeps the literal's value.\<close>

lemma requestBody_literal_key:
  assumes "requestBody h data eventData = Inr rb"
    and "k \<in> set literal_keys"
    and "k \<notin> param_key h ` set (table_rows data ''additionalParameters'')"
  obtains sc vid where
    "search_cats_value h data eventData = Inr sc"
    "visitor_id_value h data eventData = Inr vid"
    "obj_get rb k = purged (obj_get (literal_entries h data eventData sc vid) k)"
    "k \<in> fst ` set rb \<longleftrightarrow> \<not> nullish (obj_get (literal_entries h data eventData sc vid) k)"
proof -
  from assms(1) obtain m where m: "uiParamMap h data eventData = Inr m"
    and get: "\<And>k. obj_get rb k = purged (before_purge m eventData k)"
    and keys: "\<And>k. k \<in> fst ` set rb \<longleftrightarrow> \<not> nullish (before_purge m eventData k)"
    using requestBody_Inr[OF assms(1)] by blast
  obtain m0 cv scv where m0: "uiParamMap_literal h data eventData = Inr m0"
    and am: "m = after_literal h data eventData cv scv m0"
    using uiParamMap_Inr[OF m] by blast
  obtain sc vid where sc: "search_cats_value h data eventData = Inr sc"
    and vid: "visitor_id_value h data eventData = Inr vid"
    and le: "m0 = literal_entries h data eventData sc vid"
    using uiParamMap_literal_Inr[OF m0] by blast
  have sp: "take 9 k \<noteq> ''dimension''" "k \<notin> {''_cvar'', ''cvar'', ''res'', ''lang'', ''ua''}"
    "k \<noteq> ''ts_n''" "k \<noteq> ''ts_v''"
    using literal_keys_not_special[OF assms(2)] by simp_all
  have "k \<in> fst ` set m0"
    using assms(2) keys_literal_entries[of h data eventData sc vid] le
    by (metis image_set)
  then have km: "k \<in> fst ` set m" unfolding am keys_after_literal by blast
  have "obj_get m k = obj_get m0 k"
    unfolding am using assms(3) sp(1,2) by (rule get_after_literal)
  then have bp: "before_purge m eventData k = obj_get (literal_entries h data eventData sc vid) k"
    using km sp(3,4) le by (simp add: before_purge_def)
  show thesis
    using that[OF sc vid] get[of k] keys[of k] bp by simp
qed

section \<open>The purge: \<^verbatim>\<open>cleanObject\<close>\<close>

text \<open>
  C3. After the purge no property of the result is \<^verbatim>\<open>null\<close> or \<^verbatim>\<open>undefined\<close>, in
  \<open>cleanObject\<close> of any object and in every \<open>requestBody\<close> the script builds. A key
  survives exactly when the object had it with a value that is neither \<^verbatim>\<open>null\<close> nor
  \<^verbatim>\<open>undefined\<close> (so zero, the empty string and the empty array stay), and a surviving key
  keeps the value the object had for it, which is the last one written:
  a value \<open>v\<close> written last under \<open>k\<close> is what the purged object has under \<open>k\<close>.
\<close>

theorem cleanObject_purges_only_nullish:
  "(\<forall>(k, v) \<in> set (cleanObject obj). v \<noteq> Undefined \<and> v \<noteq> Null)
   \<and> (k \<in> set (obj_keys (cleanObject obj)) \<longleftrightarrow>
        k \<in> set (obj_keys obj) \<and> obj_get obj k \<noteq> Undefined \<and> obj_get obj k \<noteq> Null)
   \<and> (k \<in> set (obj_keys (cleanObject obj)) \<longrightarrow> obj_get (cleanObject obj) k = obj_get obj k)
   \<and> (v \<noteq> Undefined \<and> v \<noteq> Null \<longrightarrow> obj_get (cleanObject (obj_set k v obj)) k = v)
   \<and> (requestBody h data eventData = Inr rb \<longrightarrow>
        (\<forall>(k, v) \<in> set rb. v \<noteq> Undefined \<and> v \<noteq> Null))"
proof -
  have entries: "\<forall>(k, v) \<in> set (cleanObject o'). v \<noteq> Undefined \<and> v \<noteq> Null" for o'
    using entry_cleanObject[of _ _ o'] by (auto simp: nullish_def)
  have keys: "k \<in> set (obj_keys (cleanObject obj)) \<longleftrightarrow>
        k \<in> set (obj_keys obj) \<and> obj_get obj k \<noteq> Undefined \<and> obj_get obj k \<noteq> Null"
    by (auto simp: set_obj_keys keys_cleanObject nullish_def)
  have kept: "k \<in> set (obj_keys (cleanObject obj)) \<longrightarrow> obj_get (cleanObject obj) k = obj_get obj k"
    using keys by (simp add: get_cleanObject nullish_def)
  have last: "v \<noteq> Undefined \<and> v \<noteq> Null \<longrightarrow> obj_get (cleanObject (obj_set k v obj)) k = v"
    by (simp add: get_cleanObject obj_get_obj_set nullish_def)
  have body: "requestBody h data eventData = Inr rb \<longrightarrow>
        (\<forall>(k, v) \<in> set rb. v \<noteq> Undefined \<and> v \<noteq> Null)"
  proof
    assume "requestBody h data eventData = Inr rb"
    then obtain o' where "rb = cleanObject o'"
      by (auto simp: requestBody_def thenE_def Let_def split: sum.splits)
    then show "\<forall>(k, v) \<in> set rb. v \<noteq> Undefined \<and> v \<noteq> Null"
      using entries by simp
  qed
  from entries[of obj] keys kept last body show ?thesis by blast
qed

theorem cleanObject_purges_only_nullish_witness:
  "cleanObject [(''a'', Null), (''b'', Num (Fin 0)), (''c'', Str []), (''d'', Undefined),
                (''e'', Arr [])]
     = [(''b'', Num (Fin 0)), (''c'', Str []), (''e'', Arr [])]
   \<and> ''b'' \<in> set (obj_keys (cleanObject [(''a'', Null), (''b'', Num (Fin 0)), (''c'', Str []),
                (''d'', Undefined), (''e'', Arr [])]))
   \<and> obj_get (cleanObject [(''a'', Null), (''b'', Num (Fin 0)), (''c'', Str []),
                (''d'', Undefined), (''e'', Arr [])]) ''b'' = Num (Fin 0)
   \<and> obj_get (cleanObject (obj_set ''b'' (Str ''w'') [(''a'', Null), (''b'', Num (Fin 0)),
                (''c'', Str []), (''d'', Undefined), (''e'', Arr [])])) ''b'' = Str ''w''
   \<and> requestBody demo_host [] [] =
        Inr [(''rec'', Num (Fin 1)), (''uia'', Num (Fin 0)), (''rmip'', Num (Fin 0)),
             (''ts_n'', Str ''sgtm''), (''ts_v'', Str ''1.0.3'')]"
proof -
  let ?obj = "[(''a'', Null), (''b'', Num (Fin 0)), (''c'', Str []), (''d'', Undefined),
               (''e'', Arr [])]"
  have c: "cleanObject ?obj = [(''b'', Num (Fin 0)), (''c'', Str []), (''e'', Arr [])]"
    by code_simp
  have r: "requestBody demo_host [] [] =
        Inr [(''rec'', Num (Fin 1)), (''uia'', Num (Fin 0)), (''rmip'', Num (Fin 0)),
             (''ts_n'', Str ''sgtm''), (''ts_v'', Str ''1.0.3'')]"
    by code_simp
  have k: "''b'' \<in> set (obj_keys (cleanObject ?obj))"
    by (simp add: c set_obj_keys)
  from cleanObject_purges_only_nullish[of ?obj "''b''" "Str ''w''" demo_host "[]" "[]"
      "[(''rec'', Num (Fin 1)), (''uia'', Num (Fin 0)), (''rmip'', Num (Fin 0)),
             (''ts_n'', Str ''sgtm''), (''ts_v'', Str ''1.0.3'')]"]
  have "obj_get (cleanObject ?obj) ''b'' = obj_get ?obj ''b''"
    and "obj_get (cleanObject (obj_set ''b'' (Str ''w'') ?obj)) ''b'' = Str ''w''"
    using k by simp_all
  then show ?thesis using c r k by (simp add: obj_get_def)
qed

section \<open>The ecommerce converter\<close>

text \<open>
  C4. The converter maps the list of the one item
  \<^verbatim>\<open>{item_id: 1, item_name: "A", price: 9.5, quantity: 2, item_category: "X"}\<close> to the
  list of the one product \<^verbatim>\<open>["1", "A", ["X"], 9.5, 2, undefined, undefined, {}]\<close>, on
  every host: the identifier as a string, the one category, price and quantity as they
  are, brand and variant \<^verbatim>\<open>undefined\<close>, no dimension.
\<close>

theorem convertEcommerce_example:
  "convertEcommerce h
     (Arr [Obj [(''item_id'', Num (Fin 1)), (''item_name'', Str ''A''),
                (''price'', Num (Fin (19 / 2))), (''quantity'', Num (Fin 2)),
                (''item_category'', Str ''X'')]])
   = Arr [Arr [Str ''1'', Str ''A'', Arr [Str ''X''], Num (Fin (19 / 2)), Num (Fin 2),
               Undefined, Undefined, Obj []]]"
  by (simp add: convertEcommerce_def convertItem_def item_dimensions_def obj_keys_def
      obj_get_def makeString_def is_integer_def int_to_string_def dec_digits.simps
      digit_char_def)

lemma convertEcommerce_Arr:
  "convertEcommerce h (Arr xs) = Arr (map (convertItem h) (objects_of xs))"
proof -
  have "map (convertEntry h) (filter (\<lambda>item. getType item = ''object'') xs)
          = map (convertItem h) (objects_of xs)"
  proof (induction xs)
    case Nil
    show ?case by simp
  next
    case (Cons x xs)
    then show ?case by (cases x) simp_all
  qed
  then show ?thesis by (simp add: convertEcommerce_def)
qed

text \<open>
  C5. A value that is not an array is converted to \<^verbatim>\<open>undefined\<close>; the converter has no
  throwing branch (its result is a value, not \<open>error + jsval\<close>). Of an array, the entries
  that are not objects are dropped and each object entry, in order, becomes one product of
  eight components.
\<close>

theorem convertEcommerce_non_array_and_entries:
  "((\<forall>xs. v \<noteq> Arr xs) \<longrightarrow> convertEcommerce h v = Undefined)
   \<and> convertEcommerce h (Arr xs) = Arr (map (convertItem h) (objects_of xs))
   \<and> (\<forall>p \<in> set (map (convertItem h) (objects_of xs)). \<exists>ys. p = Arr ys \<and> length ys = 8)"
proof -
  have "(\<forall>xs. v \<noteq> Arr xs) \<longrightarrow> convertEcommerce h v = Undefined"
    by (cases v) (simp_all add: convertEcommerce_def)
  moreover have "\<forall>p \<in> set (map (convertItem h) (objects_of xs)). \<exists>ys. p = Arr ys \<and> length ys = 8"
    by (simp add: convertItem_def)
  ultimately show ?thesis using convertEcommerce_Arr by blast
qed

theorem convertEcommerce_non_array_and_entries_witness:
  "convertEcommerce demo_host (Obj [(''item_id'', Num (Fin 1))]) = Undefined
   \<and> convertEcommerce demo_host (Str ''[]'') = Undefined
   \<and> convertEcommerce demo_host (Arr [Null, Obj [(''item_id'', Str ''sku'')], Str ''x'', Num (Fin 3)])
       = Arr [Arr [Str ''sku'', Undefined, Arr [], Undefined, Undefined, Undefined, Undefined, Obj []]]"
proof -
  have "convertEcommerce demo_host (Obj [(''item_id'', Num (Fin 1))]) = Undefined"
    using convertEcommerce_non_array_and_entries[of "Obj [(''item_id'', Num (Fin 1))]" demo_host "[]"]
    by simp
  moreover have "convertEcommerce demo_host (Str ''[]'') = Undefined"
    using convertEcommerce_non_array_and_entries[of "Str ''[]''" demo_host "[]"]
    by simp
  moreover have "convertEcommerce demo_host (Arr [Null, Obj [(''item_id'', Str ''sku'')], Str ''x'', Num (Fin 3)])
       = Arr [Arr [Str ''sku'', Undefined, Arr [], Undefined, Undefined, Undefined, Undefined, Obj []]]"
    using convertEcommerce_non_array_and_entries[of Undefined demo_host
        "[Null, Obj [(''item_id'', Str ''sku'')], Str ''x'', Num (Fin 3)]"]
    by (simp add: convertItem_def item_dimensions_def obj_keys_def obj_get_def makeString_def)
  ultimately show ?thesis by blast
qed

section \<open>Resolved parameters\<close>

lemma resolved_Inr:
  "requestBody h data eventData = Inr rb \<Longrightarrow> resolved h data eventData k = Inr (obj_get rb k)"
  by (simp add: resolved_def)

lemma uiParamMap_keys:
  assumes "uiParamMap h data eventData = Inr m"
  shows "fst ` set m = ui_keys h data"
proof -
  obtain m0 cv scv where m0: "uiParamMap_literal h data eventData = Inr m0"
    and am: "m = after_literal h data eventData cv scv m0"
    using uiParamMap_Inr[OF assms] by blast
  have "fst ` set m0 = set literal_keys"
    using uiParamMap_literal_keys[OF m0] by (metis image_set)
  then show ?thesis unfolding am keys_after_literal ui_keys_def by blast
qed

lemma table_rows_absent [simp]: "table_rows [] name = []"
  by (simp add: table_rows_def js_or_def)

lemma resolved_literal_key:
  assumes "well_typed data eventData"
    and "k \<in> set literal_keys"
    and "k \<notin> param_key h ` set (table_rows data ''additionalParameters'')"
    and "search_cats_value h data eventData = Inr sc"
    and "visitor_id_value h data eventData = Inr vid"
  shows "resolved h data eventData k = Inr (purged (obj_get (literal_entries h data eventData sc vid) k))"
proof -
  obtain rb where rb: "requestBody h data eventData = Inr rb"
    using requestBody_ok[OF assms(1)] by blast
  obtain sc' vid' where "search_cats_value h data eventData = Inr sc'"
    and "visitor_id_value h data eventData = Inr vid'"
    and g: "obj_get rb k = purged (obj_get (literal_entries h data eventData sc' vid') k)"
    using requestBody_literal_key[OF rb assms(2,3)] by blast
  then have "sc' = sc" "vid' = vid" using assms(4,5) by simp_all
  then show ?thesis using g by (simp add: resolved_Inr[OF rb])
qed

lemma requestBody_free_form_last:
  assumes "requestBody h data eventData = Inr rb"
    and "table_rows data ''additionalParameters'' = before @ p # after"
    and "param_key h p \<notin> param_key h ` set after"
    and "param_key h p \<noteq> ''ts_n''" and "param_key h p \<noteq> ''ts_v''"
  shows "obj_get rb (param_key h p) = purged (param_value p)"
proof -
  obtain m where m: "uiParamMap h data eventData = Inr m"
    and get: "\<And>k. obj_get rb k = purged (before_purge m eventData k)"
    and keys: "\<And>k. k \<in> fst ` set rb \<longleftrightarrow> \<not> nullish (before_purge m eventData k)"
    using requestBody_Inr[OF assms(1)] by blast
  obtain m0 cv scv where m0: "uiParamMap_literal h data eventData = Inr m0"
    and am: "m = after_literal h data eventData cv scv m0"
    using uiParamMap_Inr[OF m] by blast
  have a: "obj_get m (param_key h p) = param_value p"
    unfolding am using assms(2,3) by (rule get_after_literal_last)
  have "p \<in> set (table_rows data ''additionalParameters'')"
    unfolding assms(2) by simp
  then have "param_key h p \<in> fst ` set m"
    unfolding am keys_after_literal by blast
  then show ?thesis
    using get[of "param_key h p"] a assms(4,5) by (simp add: before_purge_def)
qed

lemma resolved_free_form_last:
  assumes "well_typed data eventData"
    and "table_rows data ''additionalParameters'' = before @ p # after"
    and "param_key h p \<notin> param_key h ` set after"
    and "param_key h p \<noteq> ''ts_n''" and "param_key h p \<noteq> ''ts_v''"
  shows "resolved h data eventData (param_key h p) = Inr (purged (param_value p))"
proof -
  obtain rb where rb: "requestBody h data eventData = Inr rb"
    using requestBody_ok[OF assms(1)] by blast
  show ?thesis
    unfolding resolved_Inr[OF rb] requestBody_free_form_last[OF rb assms(2-5)] ..
qed

section \<open>Precedence of the configuration\<close>

lemma get_literal_fallback:
  assumes "(f, g) \<in> set event_fallback" and "\<not> truthy (obj_get data f)"
  shows "obj_get (literal_entries h data eventData sc vid) f = obj_get eventData g"
proof -
  have "list_all (\<lambda>(f, g). \<not> truthy (obj_get data f) \<longrightarrow>
           obj_get (literal_entries h data eventData sc vid) f = obj_get eventData g) event_fallback"
    by (simp add: event_fallback_def literal_entries_def js_or_def)
  then show ?thesis using assms by (auto simp: list_all_iff)
qed

lemma event_fallback_literal_key: "(f, g) \<in> set event_fallback \<Longrightarrow> f \<in> set literal_keys"
proof -
  have "list_all (\<lambda>(f, g). f \<in> set literal_keys) event_fallback"
    by (simp add: event_fallback_def literal_keys_def)
  then show "(f, g) \<in> set event_fallback \<Longrightarrow> f \<in> set literal_keys"
    by (auto simp: list_all_iff)
qed

text \<open>
  C1, as amended. The script tests a value of the configuration with \<^verbatim>\<open>||\<close> or
  \<^verbatim>\<open>? :\<close>, that is for truthiness, which is narrower than being present and not empty:
  \<^verbatim>\<open>0\<close>, \<^verbatim>\<open>NaN\<close>, \<^verbatim>\<open>false\<close> and the empty string are present and lose to the
  event. When the script returns a request body and no row of the free-form table has the
  key:
  \<^item> a field the literal writes as \<^verbatim>\<open>data.f || ...\<close> (\<open>direct_fields\<close>) has the
    configuration's value whenever that value is truthy, whatever the event holds;
  \<^item> a field the literal writes as \<^verbatim>\<open>data.f || eventData.g\<close> (\<open>event_fallback\<close>) has
    the event's value, purged, whenever the configuration's value is not truthy, be it
    absent or one of \<^verbatim>\<open>0\<close>, \<^verbatim>\<open>NaN\<close>, \<^verbatim>\<open>false\<close>, \<^verbatim>\<open>null\<close> and the empty string;
  \<^item> \<^verbatim>\<open>idsite\<close> is the configuration's \<^verbatim>\<open>websiteId\<close>, when that is neither
    \<^verbatim>\<open>null\<close> nor \<^verbatim>\<open>undefined\<close>;
  \<^item> \<^verbatim>\<open>uia\<close> and \<^verbatim>\<open>rmip\<close> are 1 when the configuration's \<^verbatim>\<open>anonymous\<close> names them;
  \<^item> the other fields are derived from the configuration's value, not equal to it:
    \<^verbatim>\<open>search_cats\<close>, when truthy, gives the JSON text of the list of its trimmed
    comma-separated parts, \<^verbatim>\<open>search_count\<close>, when truthy, its conversion to a number,
    \<^verbatim>\<open>ec_products\<close>, when an array, the JSON text of the converted list.
\<close>

theorem configuration_value_wins:
  assumes "requestBody h data eventData = Inr rb"
    and "k \<notin> param_key h ` set (table_rows data ''additionalParameters'')"
  shows "(k \<in> set direct_fields \<and> truthy (obj_get data k) \<longrightarrow> obj_get rb k = obj_get data k)
    \<and> ((k, g) \<in> set event_fallback \<and> \<not> truthy (obj_get data k) \<longrightarrow>
          obj_get rb k = purged (obj_get eventData g))
    \<and> (k = ''idsite'' \<longrightarrow> obj_get rb k = purged (obj_get data ''websiteId''))
    \<and> (k = ''uia'' \<and> obj_get data ''anonymous'' = Str ''uia'' \<longrightarrow> obj_get rb k = Num (Fin 1))
    \<and> (k = ''rmip'' \<and> obj_get data ''anonymous'' = Str ''rmip'' \<longrightarrow> obj_get rb k = Num (Fin 1))
    \<and> (k = ''search_cats'' \<and> truthy (obj_get data ''search_cats'') \<longrightarrow>
          (\<exists>s. obj_get data ''search_cats'' = Str s
             \<and> obj_get rb k = JSON_stringify h (Arr (map (\<lambda>item. Str (trim item)) (split_on CHR '','' s)))))
    \<and> (k = ''search_count'' \<and> truthy (obj_get data ''search_count'') \<longrightarrow>
          obj_get rb k = makeNumber h (obj_get data ''search_count''))
    \<and> (k = ''ec_products'' \<and> getType (obj_get data ''ec_products'') = ''array'' \<longrightarrow>
          obj_get rb k = JSON_stringify h (convertEcommerce h (obj_get data ''ec_products'')))"
proof -
  have direct: "obj_get rb k = obj_get data k" if "k \<in> set direct_fields" "truthy (obj_get data k)"
  proof -
    have "k \<in> set literal_keys" using direct_fields_not_special[OF that(1)] by simp
    from requestBody_literal_key[OF assms(1) this assms(2)] obtain sc vid where
      vid: "visitor_id_value h data eventData = Inr vid"
      and g: "obj_get rb k = purged (obj_get (literal_entries h data eventData sc vid) k)"
      by blast
    show ?thesis using g get_literal_direct[OF that vid] that(2) by simp
  qed
  have fallback: "obj_get rb k = purged (obj_get eventData g)"
    if "(k, g) \<in> set event_fallback" "\<not> truthy (obj_get data k)"
  proof -
    have "k \<in> set literal_keys" using event_fallback_literal_key[OF that(1)] .
    from requestBody_literal_key[OF assms(1) this assms(2)] obtain sc vid where
      g: "obj_get rb k = purged (obj_get (literal_entries h data eventData sc vid) k)"
      by blast
    show ?thesis unfolding g get_literal_fallback[OF that] ..
  qed
  have lit: "\<exists>sc vid. search_cats_value h data eventData = Inr sc
      \<and> obj_get rb k = purged (obj_get (literal_entries h data eventData sc vid) k)"
    if "k \<in> set literal_keys"
    using requestBody_literal_key[OF assms(1) that assms(2)] by metis
  have idsite: "obj_get rb k = purged (obj_get data ''websiteId'')" if "k = ''idsite''"
  proof -
    have "k \<in> set literal_keys" using that by (simp add: literal_keys_def)
    from lit[OF this] show ?thesis using that by (auto simp: literal_entries_def)
  qed
  have uia: "obj_get rb k = Num (Fin 1)" if "k = ''uia''" "obj_get data ''anonymous'' = Str ''uia''"
  proof -
    have "k \<in> set literal_keys" using that by (simp add: literal_keys_def)
    from lit[OF this] show ?thesis using that by (auto simp: literal_entries_def)
  qed
  have rmip: "obj_get rb k = Num (Fin 1)" if "k = ''rmip''" "obj_get data ''anonymous'' = Str ''rmip''"
  proof -
    have "k \<in> set literal_keys" using that by (simp add: literal_keys_def)
    from lit[OF this] show ?thesis using that by (auto simp: literal_entries_def)
  qed
  have cats: "\<exists>s. obj_get data ''search_cats'' = Str s
             \<and> obj_get rb k = JSON_stringify h (Arr (map (\<lambda>item. Str (trim item)) (split_on CHR '','' s)))"
    if "k = ''search_cats''" "truthy (obj_get data ''search_cats'')"
  proof -
    have "k \<in> set literal_keys" using that by (simp add: literal_keys_def)
    from lit[OF this] obtain sc vid where sc: "search_cats_value h data eventData = Inr sc"
      and g: "obj_get rb k = purged (obj_get (literal_entries h data eventData sc vid) k)"
      by blast
    have g': "obj_get rb k = purged sc" using g that(1) by (simp add: literal_entries_def)
    from sc that(2) obtain arr where arr: "stringToArrayAndTrim (obj_get data ''search_cats'') = Inr arr"
      and sc': "sc = JSON_stringify h arr"
      by (auto simp: search_cats_value_def thenE_Inr_iff)
    from arr obtain s where s: "obj_get data ''search_cats'' = Str s"
      by (cases "obj_get data ''search_cats''") simp_all
    with arr have "arr = Arr (map (\<lambda>item. Str (trim item)) (split_on CHR '','' s))" by simp
    then show ?thesis using s g' sc' by (simp add: JSON_stringify_def)
  qed
  have count: "obj_get rb k = makeNumber h (obj_get data ''search_count'')"
    if "k = ''search_count''" "truthy (obj_get data ''search_count'')"
  proof -
    have "k \<in> set literal_keys" using that by (simp add: literal_keys_def)
    from lit[OF this] have "obj_get rb k = purged (makeNumber h (obj_get data ''search_count''))"
      using that by (auto simp: literal_entries_def)
    then show ?thesis by (cases "obj_get data ''search_count''") simp_all
  qed
  have prods: "obj_get rb k = JSON_stringify h (convertEcommerce h (obj_get data ''ec_products''))"
    if "k = ''ec_products''" "getType (obj_get data ''ec_products'') = ''array''"
  proof -
    have "k \<in> set literal_keys" using that by (simp add: literal_keys_def)
    from lit[OF this] have g: "obj_get rb k = purged (ec_products_value h data eventData)"
      using that by (auto simp: literal_entries_def)
    from that(2) obtain items where "obj_get data ''ec_products'' = Arr items"
      by (cases "obj_get data ''ec_products''") simp_all
    then have "ec_products_value h data eventData
                 = JSON_stringify h (convertEcommerce h (obj_get data ''ec_products''))"
      and "truthy (JSON_stringify h (convertEcommerce h (obj_get data ''ec_products'')))"
      by (simp_all add: ec_products_value_def js_or_def convertEcommerce_def JSON_stringify_def)
    then show ?thesis using g by simp
  qed
  have c1: "k \<in> set direct_fields \<and> truthy (obj_get data k) \<longrightarrow> obj_get rb k = obj_get data k"
    using direct by blast
  have c1': "(k, g) \<in> set event_fallback \<and> \<not> truthy (obj_get data k) \<longrightarrow>
          obj_get rb k = purged (obj_get eventData g)"
    using fallback by blast
  have c2: "k = ''idsite'' \<longrightarrow> obj_get rb k = purged (obj_get data ''websiteId'')"
    using idsite by blast
  have c3: "k = ''uia'' \<and> obj_get data ''anonymous'' = Str ''uia'' \<longrightarrow> obj_get rb k = Num (Fin 1)"
    using uia by blast
  have c4: "k = ''rmip'' \<and> obj_get data ''anonymous'' = Str ''rmip'' \<longrightarrow> obj_get rb k = Num (Fin 1)"
    using rmip by blast
  have c5: "k = ''search_cats'' \<and> truthy (obj_get data ''search_cats'') \<longrightarrow>
          (\<exists>s. obj_get data ''search_cats'' = Str s
             \<and> obj_get rb k = JSON_stringify h (Arr (map (\<lambda>item. Str (trim item)) (split_on CHR '','' s))))"
    using cats by blast
  have c6: "k = ''search_count'' \<and> truthy (obj_get data ''search_count'') \<longrightarrow>
          obj_get rb k = makeNumber h (obj_get data ''search_count'')"
    using count by blast
  have c7: "k = ''ec_products'' \<and> getType (obj_get data ''ec_products'') = ''array'' \<longrightarrow>
          obj_get rb k = JSON_stringify h (convertEcommerce h (obj_get data ''ec_products''))"
    using prods by blast
  show ?thesis by (intro conjI c1 c1' c2 c3 c4 c5 c6 c7)
qed

text \<open>
  The claim as stated fails twice on one input. The configuration's \<^verbatim>\<open>e_v\<close> is \<^verbatim>\<open>0\<close>,
  present and not empty, and the resolved \<^verbatim>\<open>e_v\<close> is the event's \<^verbatim>\<open>x-pp-e_v\<close>, 5. The
  configuration's \<^verbatim>\<open>search_cats\<close> is \<^verbatim>\<open>"a,b"\<close>, and the resolved \<^verbatim>\<open>search_cats\<close> is
  the JSON text \<^verbatim>\<open>["a","b"]\<close>.
\<close>

theorem configuration_value_counterexample:
  \<open>obj_get [(''e_v'', Num (Fin 0)), (''search_cats'', Str ''a,b'')] ''e_v'' = Num (Fin 0)
   \<and> obj_get [(''x-pp-e_v'', Num (Fin 5))] ''x-pp-e_v'' = Num (Fin 5)
   \<and> resolved demo_host [(''e_v'', Num (Fin 0)), (''search_cats'', Str ''a,b'')]
        [(''x-pp-e_v'', Num (Fin 5))] ''e_v'' = Inr (Num (Fin 5))
   \<and> obj_get [(''e_v'', Num (Fin 0)), (''search_cats'', Str ''a,b'')] ''search_cats'' = Str ''a,b''
   \<and> resolved demo_host [(''e_v'', Num (Fin 0)), (''search_cats'', Str ''a,b'')]
        [(''x-pp-e_v'', Num (Fin 5))] ''search_cats'' = Inr (Str ''["a","b"]'')\<close>
proof -
  let ?data = "[(''e_v'', Num (Fin 0)), (''search_cats'', Str ''a,b'')]"
  let ?ev = "[(''x-pp-e_v'', Num (Fin 5))]"
  have wt: "well_typed ?data ?ev"
    by (simp add: well_typed_def rows_ok_def js_or_def)
  have k: "''search_cats'' \<in> set literal_keys" and k': "''e_v'' \<in> set literal_keys"
    by (simp_all add: literal_keys_def)
  have np: "k \<notin> param_key demo_host ` set (table_rows ?data ''additionalParameters'')" for k
    by (simp add: table_rows_def js_or_def)
  have sc: \<open>search_cats_value demo_host ?data ?ev = Inr (Str ''["a","b"]'')\<close>
    by code_simp
  have vid: "visitor_id_value demo_host ?data ?ev = Inr Undefined"
    by (simp add: visitor_id_value_def getClientIdHash_def)
  have a: \<open>resolved demo_host ?data ?ev ''search_cats'' = Inr (Str ''["a","b"]'')\<close>
    unfolding resolved_literal_key[OF wt k np sc vid] by (simp add: literal_entries_def)
  have b: "resolved demo_host ?data ?ev ''e_v'' = Inr (Num (Fin 5))"
    unfolding resolved_literal_key[OF wt k' np sc vid]
    by (simp add: literal_entries_def js_or_def purged_def nullish_def)
  show ?thesis using a b by simp
qed

theorem configuration_value_wins_witness:
  \<open>resolved demo_host
     [(''websiteId'', Str ''site-1''), (''url'', Str ''https://example.com/''),
      (''search_cats'', Str ''a, b''), (''search_count'', Str ''10''), (''e_v'', Num (Fin 0)),
      (''anonymous'', Str ''uia''), (''ec_products'', Arr [])]
     [(''page_location'', Str ''https://other.example/''), (''x-pp-search_cats'', Arr [Str ''c'']),
      (''x-pp-idsite'', Str ''site-9''), (''x-pp-search_count'', Num (Fin 3)),
      (''x-pp-e_v'', Num (Fin 5)), (''x-pp-ec_products'', Arr [Arr [Str ''sku'']])]
     ''url'' = Inr (Str ''https://example.com/'')
   \<and> resolved demo_host
     [(''websiteId'', Str ''site-1''), (''url'', Str ''https://example.com/''),
      (''search_cats'', Str ''a, b''), (''search_count'', Str ''10''), (''e_v'', Num (Fin 0)),
      (''anonymous'', Str ''uia''), (''ec_products'', Arr [])]
     [(''page_location'', Str ''https://other.example/''), (''x-pp-search_cats'', Arr [Str ''c'']),
      (''x-pp-idsite'', Str ''site-9''), (''x-pp-search_count'', Num (Fin 3)),
      (''x-pp-e_v'', Num (Fin 5)), (''x-pp-ec_products'', Arr [Arr [Str ''sku'']])]
     ''e_v'' = Inr (Num (Fin 5))
   \<and> resolved demo_host
     [(''websiteId'', Str ''site-1''), (''url'', Str ''https://example.com/''),
      (''search_cats'', Str ''a, b''), (''search_count'', Str ''10''), (''e_v'', Num (Fin 0)),
      (''anonymous'', Str ''uia''), (''ec_products'', Arr [])]
     [(''page_location'', Str ''https://other.example/''), (''x-pp-search_cats'', Arr [Str ''c'']),
      (''x-pp-idsite'', Str ''site-9''), (''x-pp-search_count'', Num (Fin 3)),
      (''x-pp-e_v'', Num (Fin 5)), (''x-pp-ec_products'', Arr [Arr [Str ''sku'']])]
     ''idsite'' = Inr (Str ''site-1'')
   \<and> resolved demo_host
     [(''websiteId'', Str ''site-1''), (''url'', Str ''https://example.com/''),
      (''search_cats'', Str ''a, b''), (''search_count'', Str ''10''), (''e_v'', Num (Fin 0)),
      (''anonymous'', Str ''uia''), (''ec_products'', Arr [])]
     [(''page_location'', Str ''https://other.example/''), (''x-pp-search_cats'', Arr [Str ''c'']),
      (''x-pp-idsite'', Str ''site-9''), (''x-pp-search_count'', Num (Fin 3)),
      (''x-pp-e_v'', Num (Fin 5)), (''x-pp-ec_products'', Arr [Arr [Str ''sku'']])]
     ''uia'' = Inr (Num (Fin 1))
   \<and> resolved demo_host [(''anonymous'', Str ''rmip'')] [] ''rmip'' = Inr (Num (Fin 1))
   \<and> resolved demo_host
     [(''websiteId'', Str ''site-1''), (''url'', Str ''https://example.com/''),
      (''search_cats'', Str ''a, b''), (''search_count'', Str ''10''), (''e_v'', Num (Fin 0)),
      (''anonymous'', Str ''uia''), (''ec_products'', Arr [])]
     [(''page_location'', Str ''https://other.example/''), (''x-pp-search_cats'', Arr [Str ''c'']),
      (''x-pp-idsite'', Str ''site-9''), (''x-pp-search_count'', Num (Fin 3)),
      (''x-pp-e_v'', Num (Fin 5)), (''x-pp-ec_products'', Arr [Arr [Str ''sku'']])]
     ''search_cats'' = Inr (Str ''["a","b"]'')
   \<and> resolved demo_host
     [(''websiteId'', Str ''site-1''), (''url'', Str ''https://example.com/''),
      (''search_cats'', Str ''a, b''), (''search_count'', Str ''10''), (''e_v'', Num (Fin 0)),
      (''anonymous'', Str ''uia''), (''ec_products'', Arr [])]
     [(''page_location'', Str ''https://other.example/''), (''x-pp-search_cats'', Arr [Str ''c'']),
      (''x-pp-idsite'', Str ''site-9''), (''x-pp-search_count'', Num (Fin 3)),
      (''x-pp-e_v'', Num (Fin 5)), (''x-pp-ec_products'', Arr [Arr [Str ''sku'']])]
     ''search_count'' = Inr (Num (Fin 10))
   \<and> resolved demo_host
     [(''websiteId'', Str ''site-1''), (''url'', Str ''https://example.com/''),
      (''search_cats'', Str ''a, b''), (''search_count'', Str ''10''), (''e_v'', Num (Fin 0)),
      (''anonymous'', Str ''uia''), (''ec_products'', Arr [])]
     [(''page_location'', Str ''https://other.example/''), (''x-pp-search_cats'', Arr [Str ''c'']),
      (''x-pp-idsite'', Str ''site-9''), (''x-pp-search_count'', Num (Fin 3)),
      (''x-pp-e_v'', Num (Fin 5)), (''x-pp-ec_products'', Arr [Arr [Str ''sku'']])]
     ''ec_products'' = Inr (Str ''[]'')\<close>
proof -
  let ?data = "[(''websiteId'', Str ''site-1''), (''url'', Str ''https://example.com/''),
      (''search_cats'', Str ''a, b''), (''search_count'', Str ''10''), (''e_v'', Num (Fin 0)),
      (''anonymous'', Str ''uia''), (''ec_products'', Arr [])]"
  let ?ev = "[(''page_location'', Str ''https://other.example/''), (''x-pp-search_cats'', Arr [Str ''c'']),
      (''x-pp-idsite'', Str ''site-9''), (''x-pp-search_count'', Num (Fin 3)),
      (''x-pp-e_v'', Num (Fin 5)), (''x-pp-ec_products'', Arr [Arr [Str ''sku'']])]"
  let ?data' = "[(''anonymous'', Str ''rmip'')]"
  have "well_typed ?data ?ev"
    by (simp add: well_typed_def rows_ok_def js_or_def)
  then obtain rb where rb: "requestBody demo_host ?data ?ev = Inr rb"
    using requestBody_ok by blast
  have "well_typed ?data' []"
    by (simp add: well_typed_def rows_ok_def js_or_def)
  then obtain rb' where rb': "requestBody demo_host ?data' [] = Inr rb'"
    using requestBody_ok by blast
  have np: "k \<notin> param_key demo_host ` set (table_rows ?data ''additionalParameters'')" for k
    by (simp add: table_rows_def js_or_def)
  have np': "k \<notin> param_key demo_host ` set (table_rows ?data' ''additionalParameters'')" for k
    by (simp add: table_rows_def js_or_def)
  have "''url'' \<in> set direct_fields \<and> truthy (obj_get ?data ''url'')"
    by (simp add: direct_fields_def)
  then have url: "obj_get rb ''url'' = Str ''https://example.com/''"
    using configuration_value_wins[OF rb np, of "''url''"] by simp
  have "(''e_v'', ''x-pp-e_v'') \<in> set event_fallback \<and> \<not> truthy (obj_get ?data ''e_v'')"
    by (simp add: event_fallback_def)
  then have e_v: "obj_get rb ''e_v'' = Num (Fin 5)"
    using configuration_value_wins[OF rb np, of "''e_v''" "''x-pp-e_v''"]
    by (simp add: purged_def nullish_def)
  have idsite: "obj_get rb ''idsite'' = Str ''site-1''"
    using configuration_value_wins[OF rb np, of "''idsite''"] by simp
  have uia: "obj_get rb ''uia'' = Num (Fin 1)"
    using configuration_value_wins[OF rb np, of "''uia''"] by simp
  have rmip: "obj_get rb' ''rmip'' = Num (Fin 1)"
    using configuration_value_wins[OF rb' np', of "''rmip''"] by simp
  have j: \<open>JSON_stringify demo_host (Arr (map (\<lambda>item. Str (trim item)) (split_on CHR '','' ''a, b'')))
           = Str ''["a","b"]''\<close>
    by code_simp
  have cats: \<open>obj_get rb ''search_cats'' = Str ''["a","b"]''\<close>
    using configuration_value_wins[OF rb np, of "''search_cats''"] j by simp
  have count: "obj_get rb ''search_count'' = Num (Fin 10)"
    using configuration_value_wins[OF rb np, of "''search_count''"] by (simp add: demo_host_def)
  have j': "JSON_stringify demo_host (convertEcommerce demo_host (Arr [])) = Str ''[]''"
    by code_simp
  have prods: "obj_get rb ''ec_products'' = Str ''[]''"
    using configuration_value_wins[OF rb np, of "''ec_products''"] j' by simp
  show ?thesis
    unfolding resolved_Inr[OF rb] resolved_Inr[OF rb'] url e_v idsite uia rmip cats count prods
    by simp
qed

section \<open>The visitor identifier\<close>

text \<open>
  C2, as amended. When the script returns a request body and no row of the free-form table
  has the key \<^verbatim>\<open>_id\<close>:
  \<^item> a truthy \<^verbatim>\<open>data._id\<close> is the resolved identifier as it is; the script does not
    match it against the pattern (the pattern is a validator of the template's field);
  \<^item> otherwise a client identifier of the event that is a non-empty string is the resolved
    identifier as it is when it matches \<^verbatim>\<open>^[0-9a-fA-F]{16}$\<close>, and the first sixteen
    characters of the host's hexadecimal SHA-256 digest of it when it does not;
  \<^item> otherwise, with no truthy client identifier, the field is absent.

  What \<^verbatim>\<open>getClientIdHash\<close> returns depends on the event through the client identifier
  alone.
\<close>

theorem visitor_id_resolution:
  assumes "requestBody h data eventData = Inr rb"
    and "''_id'' \<notin> param_key h ` set (table_rows data ''additionalParameters'')"
  shows "(truthy (obj_get data ''_id'') \<longrightarrow> obj_get rb ''_id'' = obj_get data ''_id'')
    \<and> (\<not> truthy (obj_get data ''_id'') \<and> obj_get eventData ''client_id'' = Str cid \<and> cid \<noteq> []
          \<and> is_hex16 cid \<longrightarrow> obj_get rb ''_id'' = Str cid)
    \<and> (\<not> truthy (obj_get data ''_id'') \<and> obj_get eventData ''client_id'' = Str cid \<and> cid \<noteq> []
          \<and> \<not> is_hex16 cid \<longrightarrow> obj_get rb ''_id'' = Str (take 16 (sha256Sync h cid)))
    \<and> (\<not> truthy (obj_get data ''_id'') \<and> \<not> truthy (obj_get eventData ''client_id'')
          \<longrightarrow> ''_id'' \<notin> fst ` set rb)
    \<and> (obj_get eventData' ''client_id'' = obj_get eventData ''client_id''
          \<longrightarrow> getClientIdHash h eventData' = getClientIdHash h eventData)"
proof -
  have "''_id'' \<in> set literal_keys" by (simp add: literal_keys_def)
  from requestBody_literal_key[OF assms(1) this assms(2)] obtain sc vid where
    vid: "visitor_id_value h data eventData = Inr vid"
    and g: "obj_get rb ''_id'' = purged (obj_get (literal_entries h data eventData sc vid) ''_id'')"
    and k: "''_id'' \<in> fst ` set rb \<longleftrightarrow> \<not> nullish (obj_get (literal_entries h data eventData sc vid) ''_id'')"
    by blast
  have l: "obj_get (literal_entries h data eventData sc vid) ''_id'' = vid"
    by (simp add: literal_entries_def)
  have c1: "truthy (obj_get data ''_id'') \<longrightarrow> obj_get rb ''_id'' = obj_get data ''_id''"
    using vid g l by (auto simp: visitor_id_value_def)
  have c2: "\<not> truthy (obj_get data ''_id'') \<and> obj_get eventData ''client_id'' = Str cid \<and> cid \<noteq> []
          \<and> is_hex16 cid \<longrightarrow> obj_get rb ''_id'' = Str cid"
    using vid g l by (auto simp: visitor_id_value_def getClientIdHash_def)
  have c3: "\<not> truthy (obj_get data ''_id'') \<and> obj_get eventData ''client_id'' = Str cid \<and> cid \<noteq> []
          \<and> \<not> is_hex16 cid \<longrightarrow> obj_get rb ''_id'' = Str (take 16 (sha256Sync h cid))"
    using vid g l by (auto simp: visitor_id_value_def getClientIdHash_def)
  have c4: "\<not> truthy (obj_get data ''_id'') \<and> \<not> truthy (obj_get eventData ''client_id'')
          \<longrightarrow> ''_id'' \<notin> fst ` set rb"
    using vid k l by (auto simp: visitor_id_value_def getClientIdHash_def nullish_def)
  have c5: "obj_get eventData' ''client_id'' = obj_get eventData ''client_id''
          \<longrightarrow> getClientIdHash h eventData' = getClientIdHash h eventData"
    by (simp add: getClientIdHash_def)
  show ?thesis by (intro conjI c1 c2 c3 c4 c5)
qed

text \<open>
  The claim as stated fails on a configured identifier that does not match the pattern:
  \<^verbatim>\<open>data._id = "visitor-1"\<close> is resolved as it is, although the event has the client
  identifier \<^verbatim>\<open>GA1.2.3\<close>, whose digest the claim expects.
\<close>

theorem visitor_id_counterexample:
  "\<not> is_hex16 ''visitor-1''
   \<and> \<not> is_hex16 ''GA1.2.3''
   \<and> resolved demo_host [(''_id'', Str ''visitor-1'')] [(''client_id'', Str ''GA1.2.3'')] ''_id''
        = Inr (Str ''visitor-1'')
   \<and> Str ''visitor-1'' \<noteq> Str (take 16 (sha256Sync demo_host ''GA1.2.3''))"
proof -
  let ?data = "[(''_id'', Str ''visitor-1'')]"
  let ?ev = "[(''client_id'', Str ''GA1.2.3'')]"
  have wt: "well_typed ?data ?ev"
    by (simp add: well_typed_def rows_ok_def js_or_def)
  have k: "''_id'' \<in> set literal_keys" by (simp add: literal_keys_def)
  have np: "''_id'' \<notin> param_key demo_host ` set (table_rows ?data ''additionalParameters'')"
    by (simp add: table_rows_def js_or_def)
  have sc: "search_cats_value demo_host ?data ?ev = Inr Undefined"
    by (simp add: search_cats_value_def JSON_stringify_def)
  have vid: "visitor_id_value demo_host ?data ?ev = Inr (Str ''visitor-1'')"
    by (simp add: visitor_id_value_def)
  have "resolved demo_host ?data ?ev ''_id'' = Inr (Str ''visitor-1'')"
    unfolding resolved_literal_key[OF wt k np sc vid] by (simp add: literal_entries_def)
  then show ?thesis by (simp add: is_hex16_def demo_host_def)
qed

theorem visitor_id_resolution_witness:
  "resolved demo_host [] [(''client_id'', Str ''GA1.2.3'')] ''_id'' = Inr (Str ''c19389c8d646c3d7'')
   \<and> resolved demo_host [] [(''client_id'', Str ''0123456789abcDEF'')] ''_id''
        = Inr (Str ''0123456789abcDEF'')
   \<and> resolved demo_host [(''_id'', Str ''0123456789abcdef'')] [(''client_id'', Str ''GA1.2.3'')] ''_id''
        = Inr (Str ''0123456789abcdef'')
   \<and> resolved demo_host [] [(''x-pp-_id'', Str ''0123456789abcdef'')] ''_id'' = Inr Undefined"
proof -
  have np: "''_id'' \<notin> param_key demo_host ` set (table_rows data ''additionalParameters'')"
    if "obj_get data ''additionalParameters'' = Undefined" for data
    using that by (simp add: table_rows_def js_or_def)
  have a: "resolved demo_host [] [(''client_id'', Str ''GA1.2.3'')] ''_id'' = Inr (Str ''c19389c8d646c3d7'')"
  proof -
    have "well_typed [] [(''client_id'', Str ''GA1.2.3'')]"
      by (simp add: well_typed_def rows_ok_def js_or_def)
    then obtain rb where rb: "requestBody demo_host [] [(''client_id'', Str ''GA1.2.3'')] = Inr rb"
      using requestBody_ok by blast
    have "\<not> is_hex16 ''GA1.2.3''" by (simp add: is_hex16_def)
    then have "obj_get rb ''_id'' = Str (take 16 (sha256Sync demo_host ''GA1.2.3''))"
      using visitor_id_resolution[OF rb np, of "''GA1.2.3''"] by simp
    moreover have "take 16 (sha256Sync demo_host ''GA1.2.3'') = ''c19389c8d646c3d7''"
      by (simp add: demo_host_def)
    ultimately show ?thesis by (simp add: resolved_Inr[OF rb])
  qed
  have b: "resolved demo_host [] [(''client_id'', Str ''0123456789abcDEF'')] ''_id''
        = Inr (Str ''0123456789abcDEF'')"
  proof -
    have "well_typed [] [(''client_id'', Str ''0123456789abcDEF'')]"
      by (simp add: well_typed_def rows_ok_def js_or_def)
    then obtain rb where rb: "requestBody demo_host [] [(''client_id'', Str ''0123456789abcDEF'')] = Inr rb"
      using requestBody_ok by blast
    have "is_hex16 ''0123456789abcDEF''" by (simp add: is_hex16_def is_hex_char_def)
    then have "obj_get rb ''_id'' = Str ''0123456789abcDEF''"
      using visitor_id_resolution[OF rb np, of "''0123456789abcDEF''"] by simp
    then show ?thesis by (simp add: resolved_Inr[OF rb])
  qed
  have c: "resolved demo_host [(''_id'', Str ''0123456789abcdef'')] [(''client_id'', Str ''GA1.2.3'')] ''_id''
        = Inr (Str ''0123456789abcdef'')"
  proof -
    have "well_typed [(''_id'', Str ''0123456789abcdef'')] [(''client_id'', Str ''GA1.2.3'')]"
      by (simp add: well_typed_def rows_ok_def js_or_def)
    then obtain rb where rb: "requestBody demo_host [(''_id'', Str ''0123456789abcdef'')]
        [(''client_id'', Str ''GA1.2.3'')] = Inr rb"
      using requestBody_ok by blast
    have "obj_get rb ''_id'' = Str ''0123456789abcdef''"
      using visitor_id_resolution[OF rb np] by simp
    then show ?thesis by (simp add: resolved_Inr[OF rb])
  qed
  have d: "resolved demo_host [] [(''x-pp-_id'', Str ''0123456789abcdef'')] ''_id'' = Inr Undefined"
  proof -
    have "well_typed [] [(''x-pp-_id'', Str ''0123456789abcdef'')]"
      by (simp add: well_typed_def rows_ok_def js_or_def)
    then obtain rb where rb: "requestBody demo_host [] [(''x-pp-_id'', Str ''0123456789abcdef'')] = Inr rb"
      using requestBody_ok by blast
    have "''_id'' \<notin> fst ` set rb"
      using visitor_id_resolution[OF rb np] by simp
    then have "obj_get rb ''_id'' = Undefined" by (rule obj_get_absent)
    then show ?thesis by (simp add: resolved_Inr[OF rb])
  qed
  show ?thesis by (intro conjI a b c d)
qed

section \<open>The free-form parameters\<close>

text \<open>
  C7, as amended. The script does not check that the keys of the free-form table are
  unique (the template's editor does, for its key column), and of the rows with one key
  the last decides. Take a row that no later row repeats the key of. When the script
  returns a request body, \<^verbatim>\<open>uiParamMap\<close> has the row's value under the row's key after
  the pass, whatever was there before. If the key is \<^verbatim>\<open>idsite\<close> and the value is neither
  \<^verbatim>\<open>null\<close> nor \<^verbatim>\<open>undefined\<close>, the request body has that value under \<^verbatim>\<open>idsite\<close>,
  whatever \<^verbatim>\<open>websiteId\<close> and the event hold; the same holds for every key other than
  the two library fields, which are written after the pass.
\<close>

theorem free_form_override_wins:
  assumes "requestBody h data eventData = Inr rb"
    and "table_rows data ''additionalParameters'' = before @ p # after"
    and "param_key h p \<notin> param_key h ` set after"
  shows "ui_param h data eventData (param_key h p) = Inr (param_value p)
    \<and> (param_key h p = ''idsite'' \<and> \<not> nullish (param_value p) \<longrightarrow> obj_get rb ''idsite'' = param_value p)
    \<and> (param_key h p \<noteq> ''ts_n'' \<and> param_key h p \<noteq> ''ts_v'' \<longrightarrow>
          obj_get rb (param_key h p) = purged (param_value p))"
proof -
  obtain m where m: "uiParamMap h data eventData = Inr m"
    and get: "\<And>k. obj_get rb k = purged (before_purge m eventData k)"
    and keys: "\<And>k. k \<in> fst ` set rb \<longleftrightarrow> \<not> nullish (before_purge m eventData k)"
    using requestBody_Inr[OF assms(1)] by blast
  obtain m0 cv scv where m0: "uiParamMap_literal h data eventData = Inr m0"
    and am: "m = after_literal h data eventData cv scv m0"
    using uiParamMap_Inr[OF m] by blast
  have a': "obj_get m (param_key h p) = param_value p"
    unfolding am using assms(2,3) by (rule get_after_literal_last)
  have a: "ui_param h data eventData (param_key h p) = Inr (param_value p)"
    using a' by (simp add: ui_param_def m)
  have "p \<in> set (table_rows data ''additionalParameters'')"
    unfolding assms(2) by simp
  then have km: "param_key h p \<in> fst ` set m"
    unfolding am keys_after_literal by blast
  have c: "param_key h p \<noteq> ''ts_n'' \<and> param_key h p \<noteq> ''ts_v'' \<longrightarrow>
          obj_get rb (param_key h p) = purged (param_value p)"
    using get[of "param_key h p"] km a' by (simp add: before_purge_def)
  have b: "param_key h p = ''idsite'' \<and> \<not> nullish (param_value p) \<longrightarrow> obj_get rb ''idsite'' = param_value p"
    using c by (auto simp: purged_def)
  show ?thesis by (intro conjI a b c)
qed

theorem free_form_override_wins_witness:
  "resolved demo_host
     [(''websiteId'', Str ''site-1''),
      (''additionalParameters'',
         Arr [Obj [(''key'', Str ''idsite''), (''value'', Str ''site-2'')],
              Obj [(''key'', Str ''url''), (''value'', Str ''https://override.example/'')]])]
     [(''x-pp-idsite'', Str ''site-3''), (''page_location'', Str ''https://example.com/'')]
     ''idsite'' = Inr (Str ''site-2'')
   \<and> ui_param demo_host
     [(''websiteId'', Str ''site-1''),
      (''additionalParameters'',
         Arr [Obj [(''key'', Str ''idsite''), (''value'', Str ''site-2'')],
              Obj [(''key'', Str ''url''), (''value'', Str ''https://override.example/'')]])]
     [(''x-pp-idsite'', Str ''site-3''), (''page_location'', Str ''https://example.com/'')]
     ''url'' = Inr (Str ''https://override.example/'')"
proof -
  let ?p1 = "Obj [(''key'', Str ''idsite''), (''value'', Str ''site-2'')]"
  let ?p2 = "Obj [(''key'', Str ''url''), (''value'', Str ''https://override.example/'')]"
  let ?data = "[(''websiteId'', Str ''site-1''), (''additionalParameters'', Arr [?p1, ?p2])]"
  let ?ev = "[(''x-pp-idsite'', Str ''site-3''), (''page_location'', Str ''https://example.com/'')]"
  have rows1: "table_rows ?data ''additionalParameters'' = [] @ ?p1 # [?p2]"
    by (simp add: table_rows_def js_or_def)
  have rows2: "table_rows ?data ''additionalParameters'' = [?p1] @ ?p2 # []"
    by (simp add: table_rows_def js_or_def)
  have k1: "param_key demo_host ?p1 = ''idsite''" and v1: "param_value ?p1 = Str ''site-2''"
    and k2: "param_key demo_host ?p2 = ''url''"
    and v2: "param_value ?p2 = Str ''https://override.example/''"
    by (simp_all add: param_key_def param_value_def prop_of_def)
  have l1: "param_key demo_host ?p1 \<notin> param_key demo_host ` set [?p2]"
    by (simp add: k1 k2)
  have l2: "param_key demo_host ?p2 \<notin> param_key demo_host ` set []"
    by simp
  have "well_typed ?data ?ev"
    by (simp add: well_typed_def rows_ok_def js_or_def nullish_def)
  then obtain rb where rb: "requestBody demo_host ?data ?ev = Inr rb"
    using requestBody_ok by blast
  have "obj_get rb ''idsite'' = Str ''site-2''"
    using free_form_override_wins[OF rb rows1 l1] by (simp add: k1 v1 nullish_def)
  moreover have "ui_param demo_host ?data ?ev ''url'' = Inr (Str ''https://override.example/'')"
    using free_form_override_wins[OF rb rows2 l2] by (simp add: k2 v2)
  ultimately show ?thesis by (simp add: resolved_Inr[OF rb])
qed

text \<open>
  The claim as stated fails for a row that a later row repeats the key of: the first of two
  \<^verbatim>\<open>idsite\<close> rows has the value \<^verbatim>\<open>site-2\<close>, which is not \<^verbatim>\<open>null\<close>, and the request
  body has the second row's \<^verbatim>\<open>site-3\<close>.
\<close>

theorem free_form_override_counterexample:
  "table_rows
     [(''websiteId'', Str ''site-1''),
      (''additionalParameters'',
         Arr [Obj [(''key'', Str ''idsite''), (''value'', Str ''site-2'')],
              Obj [(''key'', Str ''idsite''), (''value'', Str ''site-3'')]])]
     ''additionalParameters''
     = [Obj [(''key'', Str ''idsite''), (''value'', Str ''site-2'')],
        Obj [(''key'', Str ''idsite''), (''value'', Str ''site-3'')]]
   \<and> param_key demo_host (Obj [(''key'', Str ''idsite''), (''value'', Str ''site-2'')]) = ''idsite''
   \<and> param_value (Obj [(''key'', Str ''idsite''), (''value'', Str ''site-2'')]) = Str ''site-2''
   \<and> resolved demo_host
     [(''websiteId'', Str ''site-1''),
      (''additionalParameters'',
         Arr [Obj [(''key'', Str ''idsite''), (''value'', Str ''site-2'')],
              Obj [(''key'', Str ''idsite''), (''value'', Str ''site-3'')]])]
     [] ''idsite'' = Inr (Str ''site-3'')"
proof -
  let ?p1 = "Obj [(''key'', Str ''idsite''), (''value'', Str ''site-2'')]"
  let ?p2 = "Obj [(''key'', Str ''idsite''), (''value'', Str ''site-3'')]"
  let ?data = "[(''websiteId'', Str ''site-1''), (''additionalParameters'', Arr [?p1, ?p2])]"
  have rows: "table_rows ?data ''additionalParameters'' = [?p1] @ ?p2 # []"
    by (simp add: table_rows_def js_or_def)
  have k1: "param_key demo_host ?p1 = ''idsite''" and v1: "param_value ?p1 = Str ''site-2''"
    and k2: "param_key demo_host ?p2 = ''idsite''" and v2: "param_value ?p2 = Str ''site-3''"
    by (simp_all add: param_key_def param_value_def prop_of_def)
  have l: "param_key demo_host ?p2 \<notin> param_key demo_host ` set []"
    by simp
  have n: "param_key demo_host ?p2 \<noteq> ''ts_n''" "param_key demo_host ?p2 \<noteq> ''ts_v''"
    by (simp_all add: k2)
  have wt: "well_typed ?data []"
    by (simp add: well_typed_def rows_ok_def js_or_def nullish_def)
  have "resolved demo_host ?data [] (param_key demo_host ?p2) = Inr (purged (param_value ?p2))"
    using wt rows l n by (rule resolved_free_form_last)
  then have "resolved demo_host ?data [] ''idsite'' = Inr (Str ''site-3'')"
    unfolding k2 v2 by (simp add: purged_def nullish_def)
  then show ?thesis using rows k1 v1 by simp
qed

section \<open>The library fields\<close>

text \<open>
  C8, as amended. Every request body the script returns has \<^verbatim>\<open>ts_n\<close> with the value
  \<^verbatim>\<open>sgtm\<close> and \<^verbatim>\<open>ts_v\<close> with the value \<^verbatim>\<open>1.0.3\<close>, and the script returns one on
  every well-typed input. The two are written after \<^verbatim>\<open>uiParamMap\<close> is copied, so no
  source changes them: not the configuration's fields, not the event, and not the
  free-form table either.
\<close>

theorem library_identity_fixed:
  "(requestBody h data eventData = Inr rb \<longrightarrow>
      obj_get rb ''ts_n'' = Str ''sgtm'' \<and> obj_get rb ''ts_v'' = Str ''1.0.3''
      \<and> ''ts_n'' \<in> fst ` set rb \<and> ''ts_v'' \<in> fst ` set rb)
   \<and> (well_typed data eventData \<longrightarrow> (\<exists>rb'. requestBody h data eventData = Inr rb'))"
proof -
  have a: "requestBody h data eventData = Inr rb \<longrightarrow>
      obj_get rb ''ts_n'' = Str ''sgtm'' \<and> obj_get rb ''ts_v'' = Str ''1.0.3''
      \<and> ''ts_n'' \<in> fst ` set rb \<and> ''ts_v'' \<in> fst ` set rb"
  proof
    assume r: "requestBody h data eventData = Inr rb"
    obtain m where m: "uiParamMap h data eventData = Inr m"
      and get: "\<And>k. obj_get rb k = purged (before_purge m eventData k)"
      and keys: "\<And>k. k \<in> fst ` set rb \<longleftrightarrow> \<not> nullish (before_purge m eventData k)"
      using requestBody_Inr[OF r] by blast
    have n: "before_purge m eventData ''ts_n'' = Str ''sgtm''"
      by (simp add: before_purge_def LIBRARY_NAME_def)
    have v: "before_purge m eventData ''ts_v'' = Str ''1.0.3''"
      by (simp add: before_purge_def LIBRARY_VERSION_def)
    show "obj_get rb ''ts_n'' = Str ''sgtm'' \<and> obj_get rb ''ts_v'' = Str ''1.0.3''
      \<and> ''ts_n'' \<in> fst ` set rb \<and> ''ts_v'' \<in> fst ` set rb"
      unfolding get keys n v by (simp add: nullish_def)
  qed
  have b: "well_typed data eventData \<longrightarrow> (\<exists>rb'. requestBody h data eventData = Inr rb')"
    using requestBody_ok by blast
  show ?thesis by (intro conjI a b)
qed

text \<open>
  The claim as stated fails on a free-form row with the key \<^verbatim>\<open>ts_n\<close>: the pass writes
  the row's value into \<^verbatim>\<open>uiParamMap\<close>, and the request body has the constant.
\<close>

theorem library_identity_counterexample:
  "ui_param demo_host
     [(''additionalParameters'', Arr [Obj [(''key'', Str ''ts_n''), (''value'', Str ''custom'')]])] []
     ''ts_n'' = Inr (Str ''custom'')
   \<and> resolved demo_host
     [(''additionalParameters'', Arr [Obj [(''key'', Str ''ts_n''), (''value'', Str ''custom'')]])] []
     ''ts_n'' = Inr (Str ''sgtm'')
   \<and> Str ''sgtm'' \<noteq> Str ''custom''"
proof -
  let ?p = "Obj [(''key'', Str ''ts_n''), (''value'', Str ''custom'')]"
  let ?data = "[(''additionalParameters'', Arr [?p])]"
  have rows: "table_rows ?data ''additionalParameters'' = [?p]"
    by (simp add: table_rows_def js_or_def)
  have kv: "param_key demo_host ?p = ''ts_n''" "param_value ?p = Str ''custom''"
    by (simp_all add: param_key_def param_value_def prop_of_def)
  have "well_typed ?data []"
    by (simp add: well_typed_def rows_ok_def js_or_def nullish_def)
  then obtain rb where rb: "requestBody demo_host ?data [] = Inr rb"
    using requestBody_ok by blast
  obtain m where m: "uiParamMap demo_host ?data [] = Inr m"
    and get: "\<And>k. obj_get rb k = purged (before_purge m [] k)"
    and keys: "\<And>k. k \<in> fst ` set rb \<longleftrightarrow> \<not> nullish (before_purge m [] k)"
    using requestBody_Inr[OF rb] by blast
  obtain m0 cv scv where m0: "uiParamMap_literal demo_host ?data [] = Inr m0"
    and am: "m = after_literal demo_host ?data [] cv scv m0"
    using uiParamMap_Inr[OF m] by blast
  have "obj_get m (param_key demo_host ?p) = param_value ?p"
    unfolding am by (rule get_after_literal_param) (simp_all add: rows)
  then have a: "ui_param demo_host ?data [] ''ts_n'' = Inr (Str ''custom'')"
    by (simp add: ui_param_def m kv)
  have "before_purge m [] ''ts_n'' = Str ''sgtm''"
    by (simp add: before_purge_def LIBRARY_NAME_def)
  then have b: "resolved demo_host ?data [] ''ts_n'' = Inr (Str ''sgtm'')"
    by (simp add: resolved_Inr[OF rb] get)
  show ?thesis using a b by simp
qed

theorem library_identity_fixed_witness:
  "well_typed
     [(''additionalParameters'', Arr [Obj [(''key'', Str ''ts_v''), (''value'', Str ''9.9.9'')]])]
     [(''x-pp-ts_n'', Str ''other'')]
   \<and> resolved demo_host
     [(''additionalParameters'', Arr [Obj [(''key'', Str ''ts_v''), (''value'', Str ''9.9.9'')]])]
     [(''x-pp-ts_n'', Str ''other'')] ''ts_n'' = Inr (Str ''sgtm'')
   \<and> resolved demo_host
     [(''additionalParameters'', Arr [Obj [(''key'', Str ''ts_v''), (''value'', Str ''9.9.9'')]])]
     [(''x-pp-ts_n'', Str ''other'')] ''ts_v'' = Inr (Str ''1.0.3'')"
proof -
  let ?data = "[(''additionalParameters'', Arr [Obj [(''key'', Str ''ts_v''), (''value'', Str ''9.9.9'')]])]"
  let ?ev = "[(''x-pp-ts_n'', Str ''other'')]"
  have wt: "well_typed ?data ?ev"
    by (simp add: well_typed_def rows_ok_def js_or_def nullish_def)
  then obtain rb where rb: "requestBody demo_host ?data ?ev = Inr rb"
    using library_identity_fixed[of demo_host ?data ?ev] by blast
  have "obj_get rb ''ts_n'' = Str ''sgtm'' \<and> obj_get rb ''ts_v'' = Str ''1.0.3''"
    using library_identity_fixed[of demo_host ?data ?ev rb] rb by blast
  then show ?thesis using wt by (simp add: resolved_Inr[OF rb])
qed

lemma ui_param_literal_key:
  assumes "well_typed data eventData"
    and "k \<in> set literal_keys"
    and "k \<notin> param_key h ` set (table_rows data ''additionalParameters'')"
    and "search_cats_value h data eventData = Inr sc"
    and "visitor_id_value h data eventData = Inr vid"
  shows "ui_param h data eventData k = Inr (obj_get (literal_entries h data eventData sc vid) k)"
proof -
  obtain m where m: "uiParamMap h data eventData = Inr m"
    using uiParamMap_ok[OF assms(1)] by blast
  obtain m0 cv scv where m0: "uiParamMap_literal h data eventData = Inr m0"
    and am: "m = after_literal h data eventData cv scv m0"
    using uiParamMap_Inr[OF m] by blast
  obtain sc' vid' where "search_cats_value h data eventData = Inr sc'"
    and "visitor_id_value h data eventData = Inr vid'"
    and le: "m0 = literal_entries h data eventData sc' vid'"
    using uiParamMap_literal_Inr[OF m0] by blast
  then have le': "m0 = literal_entries h data eventData sc vid" using assms(4,5) by simp
  have sp: "take 9 k \<noteq> ''dimension''" "k \<notin> {''_cvar'', ''cvar'', ''res'', ''lang'', ''ua''}"
    using literal_keys_not_special[OF assms(2)] by simp_all
  have "obj_get m k = obj_get m0 k"
    unfolding am using assms(3) sp by (rule get_after_literal)
  then show ?thesis by (simp add: ui_param_def m le')
qed

section \<open>The prefixed fields of the event\<close>

text \<open>
  C10, as amended. For a key of the event that starts with \<^verbatim>\<open>x-pp-\<close>, the script first
  puts the event's value under the key without the prefix, before \<^verbatim>\<open>uiParamMap\<close> is
  copied. In the request body the script returns, the stripped key has the event's value,
  or is absent when that value is \<^verbatim>\<open>null\<close> or \<^verbatim>\<open>undefined\<close>, unless it is a key of
  \<^verbatim>\<open>uiParamMap\<close>, whose value then replaces it (also when that value is
  \<^verbatim>\<open>undefined\<close>), or one of the library fields \<^verbatim>\<open>ts_n\<close> and \<^verbatim>\<open>ts_v\<close>, which have
  their constants.
\<close>

theorem prefixed_event_fields_pass_through:
  assumes "requestBody h data eventData = Inr rb"
    and "take 5 key = ''x-pp-''"
  shows "obj_get (passthrough eventData) (drop 5 key) = obj_get eventData key
    \<and> (drop 5 key \<notin> ui_keys h data \<and> drop 5 key \<noteq> ''ts_n'' \<and> drop 5 key \<noteq> ''ts_v'' \<longrightarrow>
          obj_get rb (drop 5 key) = purged (obj_get eventData key))
    \<and> (drop 5 key \<in> ui_keys h data \<and> drop 5 key \<noteq> ''ts_n'' \<and> drop 5 key \<noteq> ''ts_v'' \<longrightarrow>
          Inr (obj_get rb (drop 5 key)) = map_sum id purged (ui_param h data eventData (drop 5 key)))
    \<and> (drop 5 key = ''ts_n'' \<longrightarrow> obj_get rb (drop 5 key) = Str ''sgtm'')
    \<and> (drop 5 key = ''ts_v'' \<longrightarrow> obj_get rb (drop 5 key) = Str ''1.0.3'')"
proof -
  obtain m where m: "uiParamMap h data eventData = Inr m"
    and get: "\<And>k. obj_get rb k = purged (before_purge m eventData k)"
    and keys: "\<And>k. k \<in> fst ` set rb \<longleftrightarrow> \<not> nullish (before_purge m eventData k)"
    using requestBody_Inr[OF assms(1)] by blast
  have uk: "fst ` set m = ui_keys h data" using m by (rule uiParamMap_keys)
  have key: "''x-pp-'' @ drop 5 key = key"
    using take_drop_prefix[OF assms(2)] by simp
  have a: "obj_get (passthrough eventData) (drop 5 key) = obj_get eventData key"
    unfolding get_passthrough key by (rule refl)
  have bp: "before_purge m eventData (drop 5 key) =
     (if drop 5 key = ''ts_v'' then Str LIBRARY_VERSION
      else if drop 5 key = ''ts_n'' then Str LIBRARY_NAME
      else if drop 5 key \<in> ui_keys h data then obj_get m (drop 5 key)
      else obj_get eventData key)"
    unfolding before_purge_def key uk by (rule refl)
  have g: "obj_get rb (drop 5 key) = purged (before_purge m eventData (drop 5 key))"
    by (rule get)
  have b: "drop 5 key \<notin> ui_keys h data \<and> drop 5 key \<noteq> ''ts_n'' \<and> drop 5 key \<noteq> ''ts_v'' \<longrightarrow>
          obj_get rb (drop 5 key) = purged (obj_get eventData key)"
    unfolding g bp by simp
  have c: "drop 5 key \<in> ui_keys h data \<and> drop 5 key \<noteq> ''ts_n'' \<and> drop 5 key \<noteq> ''ts_v'' \<longrightarrow>
          Inr (obj_get rb (drop 5 key)) = map_sum id purged (ui_param h data eventData (drop 5 key))"
    unfolding g bp by (simp add: ui_param_def m)
  have d: "drop 5 key = ''ts_n'' \<longrightarrow> obj_get rb (drop 5 key) = Str ''sgtm''"
    unfolding g bp by (simp add: LIBRARY_NAME_def)
  have e: "drop 5 key = ''ts_v'' \<longrightarrow> obj_get rb (drop 5 key) = Str ''1.0.3''"
    unfolding g bp by (simp add: LIBRARY_VERSION_def)
  show ?thesis by (intro conjI a b c d e)
qed

text \<open>
  The claim as stated fails on the event key \<^verbatim>\<open>x-pp-ts_n\<close>: its value is not
  \<^verbatim>\<open>null\<close>, \<^verbatim>\<open>uiParamMap\<close> has no key \<^verbatim>\<open>ts_n\<close>, and the request body has the
  library's name under \<^verbatim>\<open>ts_n\<close>, not the event's value.
\<close>

theorem prefixed_event_fields_counterexample:
  "obj_get [(''x-pp-ts_n'', Str ''custom'')] ''x-pp-ts_n'' = Str ''custom''
   \<and> ''ts_n'' \<notin> ui_keys demo_host []
   \<and> resolved demo_host [] [(''x-pp-ts_n'', Str ''custom'')] ''ts_n'' = Inr (Str ''sgtm'')
   \<and> Str ''sgtm'' \<noteq> Str ''custom''"
proof -
  let ?ev = "[(''x-pp-ts_n'', Str ''custom'')]"
  have "well_typed [] ?ev"
    by (simp add: well_typed_def rows_ok_def js_or_def)
  then obtain rb where rb: "requestBody demo_host [] ?ev = Inr rb"
    using requestBody_ok by blast
  obtain m where m: "uiParamMap demo_host [] ?ev = Inr m"
    and get: "\<And>k. obj_get rb k = purged (before_purge m ?ev k)"
    and keys: "\<And>k. k \<in> fst ` set rb \<longleftrightarrow> \<not> nullish (before_purge m ?ev k)"
    using requestBody_Inr[OF rb] by blast
  have "before_purge m ?ev ''ts_n'' = Str ''sgtm''"
    by (simp add: before_purge_def LIBRARY_NAME_def)
  then have b: "resolved demo_host [] ?ev ''ts_n'' = Inr (Str ''sgtm'')"
    by (simp add: resolved_Inr[OF rb] get)
  have u: "''ts_n'' \<notin> ui_keys demo_host []"
    by (simp add: ui_keys_def literal_keys_def)
  show ?thesis using b u by simp
qed

theorem prefixed_event_fields_pass_through_witness:
  "resolved demo_host [] [(''x-pp-foo'', Str ''bar''), (''x-pp-gone'', Null), (''x-pp-url'', Str ''u'')]
     ''foo'' = Inr (Str ''bar'')
   \<and> resolved demo_host [] [(''x-pp-foo'', Str ''bar''), (''x-pp-gone'', Null), (''x-pp-url'', Str ''u'')]
     ''gone'' = Inr Undefined
   \<and> ui_param demo_host [] [(''x-pp-foo'', Str ''bar''), (''x-pp-gone'', Null), (''x-pp-url'', Str ''u'')]
     ''url'' = Inr Undefined
   \<and> resolved demo_host [] [(''x-pp-foo'', Str ''bar''), (''x-pp-gone'', Null), (''x-pp-url'', Str ''u'')]
     ''url'' = Inr Undefined"
proof -
  let ?ev = "[(''x-pp-foo'', Str ''bar''), (''x-pp-gone'', Null), (''x-pp-url'', Str ''u'')]"
  have wt: "well_typed [] ?ev"
    by (simp add: well_typed_def rows_ok_def js_or_def)
  then obtain rb where rb: "requestBody demo_host [] ?ev = Inr rb"
    using requestBody_ok by blast
  have u: "''foo'' \<notin> ui_keys demo_host []" "''gone'' \<notin> ui_keys demo_host []"
    "''url'' \<in> ui_keys demo_host []"
    by (simp_all add: ui_keys_def literal_keys_def)
  have sc: "search_cats_value demo_host [] ?ev = Inr Undefined"
    by (simp add: search_cats_value_def JSON_stringify_def)
  have vid: "visitor_id_value demo_host [] ?ev = Inr Undefined"
    by (simp add: visitor_id_value_def getClientIdHash_def)
  have "''url'' \<in> set literal_keys" by (simp add: literal_keys_def)
  then have "ui_param demo_host [] ?ev ''url''
               = Inr (obj_get (literal_entries demo_host [] ?ev Undefined Undefined) ''url'')"
    using wt sc vid by (intro ui_param_literal_key) simp_all
  then have up: "ui_param demo_host [] ?ev ''url'' = Inr Undefined"
    by (simp add: literal_entries_def js_or_def)
  have "obj_get rb ''foo'' = Str ''bar''"
    using prefixed_event_fields_pass_through[OF rb, of "''x-pp-foo''"] u by simp
  moreover have "obj_get rb ''gone'' = Undefined"
    using prefixed_event_fields_pass_through[OF rb, of "''x-pp-gone''"] u by simp
  moreover have "obj_get rb ''url'' = Undefined"
    using prefixed_event_fields_pass_through[OF rb, of "''x-pp-url''"] u up by simp
  ultimately show ?thesis using up by (simp add: resolved_Inr[OF rb])
qed

section \<open>The products parameter\<close>

lemma JSON_stringify_cases: "JSON_stringify h v = Undefined \<or> (\<exists>s. JSON_stringify h v = Str s)"
  by (simp add: JSON_stringify_def)

lemma truthy_JSON_stringify: "truthy (JSON_stringify h v) = is_nonempty_string (JSON_stringify h v)"
  by (simp add: JSON_stringify_def)

lemma convertEcommerce_cases:
  "convertEcommerce h v = Undefined \<or> (\<exists>ys. convertEcommerce h v = Arr ys)"
  by (cases v) (simp_all add: convertEcommerce_def)

lemma JSON_stringify_convertEcommerce:
  "\<not> is_nonempty_string (JSON_stringify h (convertEcommerce h v)) \<Longrightarrow>
     JSON_stringify h (convertEcommerce h v) = Undefined"
  using convertEcommerce_cases[of h v] by (auto simp: JSON_stringify_def)

lemma purged_ec_products_value:
  "purged (ec_products_value h data eventData) = ec_products_value h data eventData"
proof -
  have "ec_products_value h data eventData = Undefined
        \<or> (\<exists>s. ec_products_value h data eventData = Str s)"
    unfolding ec_products_value_def js_or_def
    using JSON_stringify_cases[of h "convertEcommerce h (obj_get data ''ec_products'')"]
      JSON_stringify_cases[of h "obj_get eventData ''x-pp-ec_products''"]
      JSON_stringify_cases[of h "convertEcommerce h (obj_get eventData ''items'')"]
    by auto
  then show ?thesis by auto
qed

text \<open>
  C6, as amended. The value the literal gives \<^verbatim>\<open>ec_products\<close> is the JSON text of the
  first of the three candidates (the configuration's list converted, the event's
  \<^verbatim>\<open>x-pp-ec_products\<close> as it is, the event's \<^verbatim>\<open>items\<close> converted) whose JSON text is
  a non-empty string, and \<^verbatim>\<open>undefined\<close> when there is none. It is the \<^verbatim>\<open>ec_products\<close>
  of the request body the script returns when no row of the free-form table has that key;
  when rows have it, the request body has the value of the last of them, purged, and none
  of the candidates.
\<close>

theorem ec_products_first_candidate:
  "ec_products_value h data eventData =
     (case find (\<lambda>c. is_nonempty_string (JSON_stringify h c)) (ec_candidates h data eventData) of
        Some c \<Rightarrow> JSON_stringify h c
      | None \<Rightarrow> Undefined)
   \<and> (requestBody h data eventData = Inr rb
        \<and> ''ec_products'' \<notin> param_key h ` set (table_rows data ''additionalParameters'')
        \<longrightarrow> obj_get rb ''ec_products'' = ec_products_value h data eventData)
   \<and> (requestBody h data eventData = Inr rb
        \<and> table_rows data ''additionalParameters'' = before @ p # after
        \<and> param_key h p = ''ec_products''
        \<and> ''ec_products'' \<notin> param_key h ` set after
        \<longrightarrow> obj_get rb ''ec_products'' = purged (param_value p))"
proof -
  have a: "ec_products_value h data eventData =
     (case find (\<lambda>c. is_nonempty_string (JSON_stringify h c)) (ec_candidates h data eventData) of
        Some c \<Rightarrow> JSON_stringify h c
      | None \<Rightarrow> Undefined)"
    by (auto simp: ec_products_value_def ec_candidates_def js_or_def truthy_JSON_stringify
        JSON_stringify_convertEcommerce)
  have b: "requestBody h data eventData = Inr rb
        \<and> ''ec_products'' \<notin> param_key h ` set (table_rows data ''additionalParameters'')
        \<longrightarrow> obj_get rb ''ec_products'' = ec_products_value h data eventData"
  proof
    assume h: "requestBody h data eventData = Inr rb
        \<and> ''ec_products'' \<notin> param_key h ` set (table_rows data ''additionalParameters'')"
    have k: "''ec_products'' \<in> set literal_keys" by (simp add: literal_keys_def)
    obtain sc vid where
      "search_cats_value h data eventData = Inr sc"
      "visitor_id_value h data eventData = Inr vid"
      "obj_get rb ''ec_products'' = purged (obj_get (literal_entries h data eventData sc vid) ''ec_products'')"
      "''ec_products'' \<in> fst ` set rb \<longleftrightarrow>
         \<not> nullish (obj_get (literal_entries h data eventData sc vid) ''ec_products'')"
      using requestBody_literal_key[OF conjunct1[OF h] k conjunct2[OF h]] by blast
    then show "obj_get rb ''ec_products'' = ec_products_value h data eventData"
      by (simp add: literal_entries_def purged_ec_products_value)
  qed
  have c: "requestBody h data eventData = Inr rb
        \<and> table_rows data ''additionalParameters'' = before @ p # after
        \<and> param_key h p = ''ec_products''
        \<and> ''ec_products'' \<notin> param_key h ` set after
        \<longrightarrow> obj_get rb ''ec_products'' = purged (param_value p)"
  proof
    assume h: "requestBody h data eventData = Inr rb
        \<and> table_rows data ''additionalParameters'' = before @ p # after
        \<and> param_key h p = ''ec_products''
        \<and> ''ec_products'' \<notin> param_key h ` set after"
    then have rb: "requestBody h data eventData = Inr rb"
      and rows: "table_rows data ''additionalParameters'' = before @ p # after"
      and k: "param_key h p = ''ec_products''"
      and l: "param_key h p \<notin> param_key h ` set after"
      by simp_all
    have n: "param_key h p \<noteq> ''ts_n''" "param_key h p \<noteq> ''ts_v''"
      by (simp_all add: k)
    show "obj_get rb ''ec_products'' = purged (param_value p)"
      using requestBody_free_form_last[OF rb rows l n] unfolding k .
  qed
  show ?thesis by (intro conjI a b c)
qed

theorem ec_products_first_candidate_witness:
  \<open>ec_products_value demo_host
      [(''ec_products'', Arr [Obj [(''item_id'', Num (Fin 1))]])]
      [(''x-pp-ec_products'', Arr [Arr [Str ''sku'']]), (''items'', Arr [])]
     = Str ''[["1",null,[],null,null,null,null,{}]]''
   \<and> ec_products_value demo_host
      [(''ec_products'', Str ''not a list'')]
      [(''x-pp-ec_products'', Arr [Arr [Str ''sku'']]), (''items'', Arr [])]
     = Str ''[["sku"]]''
   \<and> ec_products_value demo_host [] [(''items'', Arr [])] = Str ''[]''
   \<and> ec_products_value demo_host [] [(''items'', Str ''not a list'')] = Undefined
   \<and> resolved demo_host [] [(''items'', Arr [])] ''ec_products'' = Inr (Str ''[]'')
   \<and> resolved demo_host
        [(''additionalParameters'',
            Arr [Obj [(''key'', Str ''ec_products''), (''value'', Str ''[["x"]]'')]])]
        [(''items'', Arr [])] ''ec_products'' = Inr (Str ''[["x"]]'')\<close>
proof -
  have a: \<open>ec_products_value demo_host
      [(''ec_products'', Arr [Obj [(''item_id'', Num (Fin 1))]])]
      [(''x-pp-ec_products'', Arr [Arr [Str ''sku'']]), (''items'', Arr [])]
     = Str ''[["1",null,[],null,null,null,null,{}]]''\<close>
    unfolding conjunct1[OF ec_products_first_candidate] by code_simp
  have b: \<open>ec_products_value demo_host
      [(''ec_products'', Str ''not a list'')]
      [(''x-pp-ec_products'', Arr [Arr [Str ''sku'']]), (''items'', Arr [])]
     = Str ''[["sku"]]''\<close>
    unfolding conjunct1[OF ec_products_first_candidate] by code_simp
  have c: "ec_products_value demo_host [] [(''items'', Arr [])] = Str ''[]''"
    unfolding conjunct1[OF ec_products_first_candidate] by code_simp
  have d: "ec_products_value demo_host [] [(''items'', Str ''not a list'')] = Undefined"
    unfolding conjunct1[OF ec_products_first_candidate] by code_simp
  have "well_typed [] [(''items'', Arr [])]"
    by (simp add: well_typed_def rows_ok_def js_or_def)
  then obtain rb where rb: "requestBody demo_host [] [(''items'', Arr [])] = Inr rb"
    using requestBody_ok by blast
  have "''ec_products'' \<notin> param_key demo_host ` set (table_rows [] ''additionalParameters'')"
    by simp
  then have "obj_get rb ''ec_products'' = ec_products_value demo_host [] [(''items'', Arr [])]"
    using ec_products_first_candidate[of demo_host "[]" "[(''items'', Arr [])]" rb] rb by blast
  then have e: "resolved demo_host [] [(''items'', Arr [])] ''ec_products'' = Inr (Str ''[]'')"
    by (simp add: resolved_Inr[OF rb] c)
  let ?p = \<open>Obj [(''key'', Str ''ec_products''), (''value'', Str ''[["x"]]'')]\<close>
  let ?data = "[(''additionalParameters'', Arr [?p])]"
  have "well_typed ?data [(''items'', Arr [])]"
    by (simp add: well_typed_def rows_ok_def js_or_def nullish_def)
  then obtain rb' where rb': "requestBody demo_host ?data [(''items'', Arr [])] = Inr rb'"
    using requestBody_ok by blast
  have rows: "table_rows ?data ''additionalParameters'' = [] @ ?p # []"
    by (simp add: table_rows_def js_or_def)
  have k: "param_key demo_host ?p = ''ec_products''"
    and v: \<open>param_value ?p = Str ''[["x"]]''\<close>
    by (simp_all add: param_key_def param_value_def prop_of_def)
  have l: "''ec_products'' \<notin> param_key demo_host ` set []"
    by simp
  have \<open>obj_get rb' ''ec_products'' = purged (param_value ?p)\<close>
    using ec_products_first_candidate[of demo_host ?data "[(''items'', Arr [])]" rb' "[]" ?p "[]"]
      rb' rows k l by blast
  then have f: \<open>resolved demo_host ?data [(''items'', Arr [])] ''ec_products'' = Inr (Str ''[["x"]]'')\<close>
    by (simp add: resolved_Inr[OF rb'] v purged_def nullish_def)
  show ?thesis by (intro conjI a b c d e f)
qed

text \<open>
  The claim as stated fails when a row of the free-form table has the key: the first
  candidate gives the JSON text \<^verbatim>\<open>[]\<close>, the second \<^verbatim>\<open>[["sku"]]\<close>, the third none, and
  the request body has the row's \<^verbatim>\<open>custom\<close>.
\<close>

theorem ec_products_counterexample:
  \<open>map (JSON_stringify demo_host)
     (ec_candidates demo_host
        [(''ec_products'', Arr []),
         (''additionalParameters'',
            Arr [Obj [(''key'', Str ''ec_products''), (''value'', Str ''custom'')]])]
        [(''x-pp-ec_products'', Arr [Arr [Str ''sku'']])])
     = [Str ''[]'', Str ''[["sku"]]'', Undefined]
   \<and> resolved demo_host
        [(''ec_products'', Arr []),
         (''additionalParameters'',
            Arr [Obj [(''key'', Str ''ec_products''), (''value'', Str ''custom'')]])]
        [(''x-pp-ec_products'', Arr [Arr [Str ''sku'']])]
        ''ec_products'' = Inr (Str ''custom'')\<close>
proof -
  let ?p = "Obj [(''key'', Str ''ec_products''), (''value'', Str ''custom'')]"
  let ?data = "[(''ec_products'', Arr []), (''additionalParameters'', Arr [?p])]"
  let ?ev = "[(''x-pp-ec_products'', Arr [Arr [Str ''sku'']])]"
  have a: \<open>map (JSON_stringify demo_host) (ec_candidates demo_host ?data ?ev)
             = [Str ''[]'', Str ''[["sku"]]'', Undefined]\<close>
    by code_simp
  have rows: "table_rows ?data ''additionalParameters'' = [] @ ?p # []"
    by (simp add: table_rows_def js_or_def)
  have k: "param_key demo_host ?p = ''ec_products''" and v: "param_value ?p = Str ''custom''"
    by (simp_all add: param_key_def param_value_def prop_of_def)
  have l: "param_key demo_host ?p \<notin> param_key demo_host ` set []"
    by simp
  have n: "param_key demo_host ?p \<noteq> ''ts_n''" "param_key demo_host ?p \<noteq> ''ts_v''"
    by (simp_all add: k)
  have wt: "well_typed ?data ?ev"
    by (simp add: well_typed_def rows_ok_def js_or_def nullish_def)
  have "resolved demo_host ?data ?ev (param_key demo_host ?p) = Inr (purged (param_value ?p))"
    using wt rows l n by (rule resolved_free_form_last)
  then have b: "resolved demo_host ?data ?ev ''ec_products'' = Inr (Str ''custom'')"
    unfolding k v by (simp add: purged_def nullish_def)
  show ?thesis by (intro conjI a b)
qed

section \<open>The response\<close>

text \<open>
  C9. Apart from the console log, the callback of the request makes exactly three calls
  to the host, in this order: it sets the response status to the upstream status code,
  it sets the response header \<^verbatim>\<open>cache-control\<close> to the upstream header of that name as
  it is, and it signals success when the status code is below 400 and failure otherwise.
  It signals success only below 400 and failure only from 400 on, and it sends no
  request.
\<close>

theorem onResponse_propagates_status:
  "filter (\<lambda>e. \<not> is_log e) (onResponse h rt data rb resp)
     = [SetResponseStatus (statusCode resp),
        SetResponseHeader ''cache-control'' (obj_get (headers resp) ''cache-control''),
        if statusCode resp < 400 then GtmOnSuccess else GtmOnFailure]
   \<and> (GtmOnSuccess \<in> set (onResponse h rt data rb resp) \<longleftrightarrow> statusCode resp < 400)
   \<and> (GtmOnFailure \<in> set (onResponse h rt data rb resp) \<longleftrightarrow> \<not> statusCode resp < 400)
   \<and> filter is_request (onResponse h rt data rb resp) = []"
  by (simp add: onResponse_def)

theorem onResponse_propagates_status_witness:
  "onResponse demo_host demo_runtime [(''logType'', Str ''no'')] []
      \<lparr>statusCode = 404, headers = [(''cache-control'', Str ''no-store'')], body = Str ''not found''\<rparr>
     = [SetResponseStatus 404, SetResponseHeader ''cache-control'' (Str ''no-store''), GtmOnFailure]
   \<and> onResponse demo_host demo_runtime [(''logType'', Str ''no'')] []
      \<lparr>statusCode = 200, headers = [], body = Str []\<rparr>
     = [SetResponseStatus 200, SetResponseHeader ''cache-control'' Undefined, GtmOnSuccess]
   \<and> filter (\<lambda>e. \<not> is_log e)
       (onResponse demo_host demo_runtime [(''logType'', Str ''always'')] []
          \<lparr>statusCode = 399, headers = [(''cache-control'', Str ''max-age=60'')], body = Str []\<rparr>)
     = [SetResponseStatus 399, SetResponseHeader ''cache-control'' (Str ''max-age=60''), GtmOnSuccess]
   \<and> filter (\<lambda>e. \<not> is_log e)
       (onResponse demo_host demo_runtime [(''logType'', Str ''always'')] []
          \<lparr>statusCode = 400, headers = [(''cache-control'', Str ''max-age=60'')], body = Str []\<rparr>)
     = [SetResponseStatus 400, SetResponseHeader ''cache-control'' (Str ''max-age=60''), GtmOnFailure]"
proof -
  have nolog: "\<not> isLoggingEnabled demo_runtime [(''logType'', Str ''no'')]"
    by (simp add: isLoggingEnabled_def Let_def)
  have a: "onResponse demo_host demo_runtime [(''logType'', Str ''no'')] [] resp
             = filter (\<lambda>e. \<not> is_log e)
                 (onResponse demo_host demo_runtime [(''logType'', Str ''no'')] [] resp)" for resp
    using nolog by (simp add: onResponse_def)
  show ?thesis
    using onResponse_propagates_status[of demo_host demo_runtime "[(''logType'', Str ''no'')]" "[]"
        "\<lparr>statusCode = 404, headers = [(''cache-control'', Str ''no-store'')], body = Str ''not found''\<rparr>"]
      onResponse_propagates_status[of demo_host demo_runtime "[(''logType'', Str ''no'')]" "[]"
        "\<lparr>statusCode = 200, headers = [], body = Str []\<rparr>"]
      onResponse_propagates_status[of demo_host demo_runtime "[(''logType'', Str ''always'')]" "[]"
        "\<lparr>statusCode = 399, headers = [(''cache-control'', Str ''max-age=60'')], body = Str []\<rparr>"]
      onResponse_propagates_status[of demo_host demo_runtime "[(''logType'', Str ''always'')]" "[]"
        "\<lparr>statusCode = 400, headers = [(''cache-control'', Str ''max-age=60'')], body = Str []\<rparr>"]
    by (simp add: a[symmetric])
qed

end
